theory Spec2Isabelle
  imports Main "HOL-Library.Word" "HOL-Library.Signed_Division" "HOL-Library.Multiset"
begin

unbundle bit_operations_syntax

section \<open>Machine types\<close>

text \<open>
  The program is C for a 64-bit little-endian POSIX host: \<open>long\<close> and the two fields of
  \<open>struct timeval\<close> are 64-bit two's-complement integers, \<open>unsigned int\<close> has 32 bits,
  \<open>unsigned short\<close> 16 bits. Values of type \<open>int\<close> that the program only compares, counts
  up to \<open>packet_count\<close> or passes on (ports, file descriptors, return codes, loop counters)
  are modelled as \<open>int\<close>: none of them can leave the 32-bit range when \<open>packet_count\<close> is a
  C \<open>int\<close>.
\<close>

type_synonym byte = "8 word"
type_synonym long = "64 word"

record timeval =
  tv_sec :: long
  tv_usec :: long

text \<open>Signed division of two \<open>long\<close> values; C truncates the quotient towards zero.\<close>

definition sdiv64 :: "long \<Rightarrow> long \<Rightarrow> long" where
  "sdiv64 a b = word_of_int (sint a sdiv sint b)"

section \<open>Timing utility\<close>

definition calculate_elapsed_ms :: "timeval \<Rightarrow> timeval \<Rightarrow> long" where
  "calculate_elapsed_ms start_tv end_tv =
     (let seconds = (tv_sec end_tv - tv_sec start_tv) * 1000;
          microseconds = sdiv64 (tv_usec end_tv - tv_usec start_tv) 1000
      in seconds + microseconds)"

text \<open>
  Conditions on a pair of captured timestamps: the microsecond field lies in
  \<open>[0, 999999]\<close>; the end is not earlier than the start; and the span in seconds is short
  enough for the multiplication by 1000 and the final sum to stay inside \<open>long\<close>
  (signed overflow is undefined in C).
\<close>

definition valid_usec :: "timeval \<Rightarrow> bool" where
  "valid_usec tv \<longleftrightarrow> 0 \<le> sint (tv_usec tv) \<and> sint (tv_usec tv) \<le> 999999"

definition not_earlier :: "timeval \<Rightarrow> timeval \<Rightarrow> bool" where
  "not_earlier start_tv end_tv \<longleftrightarrow>
     sint (tv_sec start_tv) < sint (tv_sec end_tv)
     \<or> (sint (tv_sec start_tv) = sint (tv_sec end_tv)
        \<and> sint (tv_usec start_tv) \<le> sint (tv_usec end_tv))"

definition span_fits :: "timeval \<Rightarrow> timeval \<Rightarrow> bool" where
  "span_fits start_tv end_tv \<longleftrightarrow>
     sint (tv_sec end_tv) - sint (tv_sec start_tv) < 9223372036854775"

section \<open>Checksum utility\<close>

text \<open>
  \<open>calculate_icmp_checksum(data, len)\<close> walks the buffer through an \<open>unsigned short *\<close>.
  The model takes the \<open>len\<close> bytes at \<open>data\<close> as a list. \<open>load16\<close> is the 16-bit value the
  host reads from two consecutive bytes (low byte first).
\<close>

definition load16 :: "byte \<Rightarrow> byte \<Rightarrow> 16 word" where
  "load16 b0 b1 = ucast b0 + 256 * ucast b1"

text \<open>
  The two summation steps of the source: the \<open>while (len > 1)\<close> loop adds one 16-bit word
  per round to the 32-bit accumulator, and a trailing single byte is added on its own.
\<close>

fun sum_words :: "byte list \<Rightarrow> 32 word \<Rightarrow> 32 word" where
  "sum_words (b0 # b1 # rest) s = sum_words rest (s + ucast (load16 b0 b1))"
| "sum_words [b] s = s + ucast b"
| "sum_words [] s = s"

text \<open>\<open>while (sum >> 16) sum = (sum & 0xFFFF) + (sum >> 16);\<close>\<close>

function fold_carry :: "32 word \<Rightarrow> 32 word" where
  "fold_carry s =
     (if drop_bit 16 s \<noteq> 0 then fold_carry ((s AND 0xFFFF) + drop_bit 16 s) else s)"
  by pat_completeness auto
termination
proof (relation "measure unat")
  show "wf (measure unat)" by simp
next
  fix s :: "32 word"
  assume nz: "drop_bit 16 s \<noteq> 0"
  define q r where "q = unat s div 65536" and "r = unat s mod 65536"
  have lt: "unat s < 4294967296"
    using unsigned_less [of s, where 'a = nat] by simp
  have hi: "unat (drop_bit 16 s) = q"
    unfolding q_def by (simp only: unat_drop_bit_eq) (simp add: drop_bit_eq_div)
  have "s AND mask 16 = s mod 2 ^ 16"
    by (simp only: take_bit_eq_mask [symmetric] take_bit_eq_mod)
  then have "s AND 0xFFFF = s mod 65536"
    by (simp add: mask_eq_exp_minus_1)
  then have lo: "unat (s AND 0xFFFF) = r"
    by (simp add: unat_word_ariths r_def)
  have "r < 65536" by (simp add: r_def)
  moreover have "q < 65536" using lt by (simp add: q_def less_mult_imp_div_less)
  ultimately have "r + q < 4294967296" by simp
  then have step: "unat ((s AND 0xFFFF) + drop_bit 16 s) = r + q"
    by (simp add: unat_word_ariths lo hi)
  have "q \<noteq> 0"
  proof
    assume "q = 0"
    with hi have "unat (drop_bit 16 s) = 0" by simp
    then have "drop_bit 16 s = 0" by (simp add: unsigned_eq_0_iff)
    with nz show False by simp
  qed
  moreover have "unat s = q * 65536 + r" by (simp add: q_def r_def)
  ultimately have "r + q < unat s" by simp
  then show "((s AND 0xFFFF) + drop_bit 16 s, s) \<in> measure unat"
    by (simp add: step)
qed

declare fold_carry.simps [simp del]

text \<open>\<open>result = ~sum\<close>, truncated to \<open>unsigned short\<close> by the assignment.\<close>

definition calculate_icmp_checksum :: "byte list \<Rightarrow> 16 word" where
  "calculate_icmp_checksum data = ucast (NOT (fold_carry (sum_words data 0)))"

text \<open>
  \<open>((uint16_t *)send_buffer)[1] = checksum;\<close> overwrites bytes 2 and 3 of the buffer with
  the low and the high byte of the checksum.
\<close>

definition store_checksum :: "byte list \<Rightarrow> 16 word \<Rightarrow> byte list" where
  "store_checksum buf c = buf[2 := ucast c, 3 := ucast (drop_bit 8 c)]"

section \<open>Port catalog\<close>

text \<open>The struct \<open>CommonPort\<close>; its fields \<open>name\<close> and \<open>port\<close> carry a prefix here.\<close>

record CommonPort =
  svc_name :: string
  svc_port :: int

definition COMMON_PORTS :: "CommonPort list" where
  "COMMON_PORTS =
     [\<lparr>svc_name = ''SSH'', svc_port = 22\<rparr>,
      \<lparr>svc_name = ''Telnet'', svc_port = 23\<rparr>,
      \<lparr>svc_name = ''SMTP'', svc_port = 25\<rparr>,
      \<lparr>svc_name = ''DNS'', svc_port = 53\<rparr>,
      \<lparr>svc_name = ''HTTP'', svc_port = 80\<rparr>,
      \<lparr>svc_name = ''POP3'', svc_port = 110\<rparr>,
      \<lparr>svc_name = ''IMAP'', svc_port = 143\<rparr>,
      \<lparr>svc_name = ''HTTPS'', svc_port = 443\<rparr>,
      \<lparr>svc_name = ''MySQL'', svc_port = 3306\<rparr>,
      \<lparr>svc_name = ''PostgreSQL'', svc_port = 5432\<rparr>,
      \<lparr>svc_name = ''Redis'', svc_port = 6379\<rparr>,
      \<lparr>svc_name = ''MongoDB'', svc_port = 27017\<rparr>,
      \<lparr>svc_name = ''RDP'', svc_port = 3389\<rparr>]"

definition NUM_COMMON_PORTS :: nat where
  "NUM_COMMON_PORTS = length COMMON_PORTS"

text \<open>The catalog as (name, port) pairs, in declaration order.\<close>

definition catalog_pairs :: "(string \<times> int) list" where
  "catalog_pairs = map (\<lambda>e. (svc_name e, svc_port e)) COMMON_PORTS"

section \<open>Operating-system interface\<close>

text \<open>
  The probes talk to the kernel. Each probe is modelled as a function of an environment
  record that holds what every system call of one run returns, and it yields, next to
  its result, the sequence of system calls it made. A negative descriptor from
  \<open>socket\<close> means that no socket was created.
\<close>

datatype syscall =
    Sys_gettimeofday
  | Sys_getpid
  | Sys_inet_pton string
  | Sys_socket int
  | Sys_fcntl int
  | Sys_connect int
  | Sys_select "int list" int
  | Sys_getsockopt int
  | Sys_setsockopt int
  | Sys_sendto int "byte list"
  | Sys_recvfrom int
  | Sys_close int

text \<open>
  The descriptors that are open after a sequence of calls, starting from the open
  descriptors \<open>fds\<close>: a successful \<open>socket\<close> adds its descriptor, \<open>close\<close> removes it.
\<close>

fun open_sockets :: "syscall list \<Rightarrow> int list \<Rightarrow> int list" where
  "open_sockets [] fds = fds"
| "open_sockets (Sys_socket r # calls) fds =
     open_sockets calls (if 0 \<le> r then r # fds else fds)"
| "open_sockets (Sys_close fd # calls) fds = open_sockets calls (remove1 fd fds)"
| "open_sockets (_ # calls) fds = open_sockets calls fds"

text \<open>The calls that create a socket or act on the network.\<close>

fun is_network_call :: "syscall \<Rightarrow> bool" where
  "is_network_call Sys_gettimeofday = False"
| "is_network_call Sys_getpid = False"
| "is_network_call (Sys_inet_pton _) = False"
| "is_network_call _ = True"

text \<open>\<open>EINPROGRESS\<close> of \<open>errno.h\<close> on Linux.\<close>

definition EINPROGRESS :: int where
  "EINPROGRESS = 115"

section \<open>TCP probe\<close>

record tcp_env =
  tcp_start_time :: timeval  \<comment> \<open>\<open>gettimeofday(&start_time)\<close>\<close>
  tcp_socket :: int  \<comment> \<open>result of \<open>socket\<close>\<close>
  tcp_inet_pton :: "string \<Rightarrow> int"  \<comment> \<open>result of \<open>inet_pton\<close> on an address string\<close>
  tcp_connect :: int  \<comment> \<open>result of \<open>connect\<close>\<close>
  tcp_errno :: int  \<comment> \<open>\<open>errno\<close> after \<open>connect\<close>\<close>
  tcp_select :: int  \<comment> \<open>result of \<open>select\<close>\<close>
  tcp_so_error :: int  \<comment> \<open>\<open>error\<close> after \<open>getsockopt(SO_ERROR)\<close>\<close>
  tcp_end_time :: timeval  \<comment> \<open>\<open>gettimeofday(&end_time)\<close>\<close>

text \<open>One constructor per \<open>return\<close> of the function, named after what it reports.\<close>

datatype tcp_outcome =
    Invalid_port
  | Socket_failed
  | Invalid_address
  | Connect_failed int
  | Timeout
  | Closed int
  | Open long

record tcp_result =
  tcp_ret :: int
  tcp_outcome :: tcp_outcome
  tcp_calls :: "syscall list"

definition check_tcp_connectivity :: "tcp_env \<Rightarrow> string \<Rightarrow> int \<Rightarrow> int \<Rightarrow> tcp_result" where
  "check_tcp_connectivity env ip port timeout_sec =
     (let start_time = tcp_start_time env;
          c0 = [Sys_gettimeofday]
      in if port < 1 \<or> port > 65535 then
           \<lparr>tcp_ret = 0, tcp_outcome = Invalid_port, tcp_calls = c0\<rparr>
         else
           let sock = tcp_socket env;
               c1 = c0 @ [Sys_socket sock]
           in if sock < 0 then
                \<lparr>tcp_ret = 0, tcp_outcome = Socket_failed, tcp_calls = c1\<rparr>
              else
                let c2 = c1 @ [Sys_fcntl sock, Sys_fcntl sock, Sys_inet_pton ip]
                in if tcp_inet_pton env ip \<le> 0 then
                     \<lparr>tcp_ret = 0, tcp_outcome = Invalid_address,
                      tcp_calls = c2 @ [Sys_close sock]\<rparr>
                   else
                     let connect_result = tcp_connect env;
                         c3 = c2 @ [Sys_connect sock]
                     in if connect_result < 0 \<and> tcp_errno env \<noteq> EINPROGRESS then
                          \<lparr>tcp_ret = 0, tcp_outcome = Connect_failed (tcp_errno env),
                           tcp_calls = c3 @ [Sys_close sock]\<rparr>
                        else
                          let select_result = tcp_select env;
                              c4 = c3 @ [Sys_select [sock] timeout_sec]
                          in if select_result \<le> 0 then
                               \<lparr>tcp_ret = 0, tcp_outcome = Timeout,
                                tcp_calls = c4 @ [Sys_close sock]\<rparr>
                             else
                               let error = tcp_so_error env;
                                   c5 = c4 @ [Sys_getsockopt sock]
                               in if error \<noteq> 0 then
                                    \<lparr>tcp_ret = 0, tcp_outcome = Closed error,
                                     tcp_calls = c5 @ [Sys_close sock]\<rparr>
                                  else
                                    let end_time = tcp_end_time env;
                                        rtt_ms = calculate_elapsed_ms start_time end_time
                                    in \<lparr>tcp_ret = 1, tcp_outcome = Open rtt_ms,
                                        tcp_calls = c5 @ [Sys_gettimeofday, Sys_close sock]\<rparr>)"

text \<open>
  The probe gets as far as the readiness wait: the port is valid, the socket exists, the
  address parses and \<open>connect\<close> did not fail outright.
\<close>

definition tcp_reaches_wait :: "tcp_env \<Rightarrow> string \<Rightarrow> int \<Rightarrow> bool" where
  "tcp_reaches_wait env ip port \<longleftrightarrow>
     1 \<le> port \<and> port \<le> 65535 \<and> 0 \<le> tcp_socket env \<and> 0 < tcp_inet_pton env ip
     \<and> \<not> (tcp_connect env < 0 \<and> tcp_errno env \<noteq> EINPROGRESS)"

section \<open>ICMP probe\<close>

subsection \<open>The echo request\<close>

text \<open>\<open>htons\<close> on the little-endian host swaps the two bytes.\<close>

definition htons :: "16 word \<Rightarrow> 16 word" where
  "htons x = push_bit 8 x OR drop_bit 8 x"

text \<open>The bytes of a 16-bit and of a 64-bit object in memory, lowest byte first.\<close>

definition store16 :: "16 word \<Rightarrow> byte list" where
  "store16 x = [ucast x, ucast (drop_bit 8 x)]"

definition store64 :: "long \<Rightarrow> byte list" where
  "store64 x = map (\<lambda>k. ucast (drop_bit (8 * k) x)) [0..<8]"

definition timeval_bytes :: "timeval \<Rightarrow> byte list" where
  "timeval_bytes tv = store64 (tv_sec tv) @ store64 (tv_usec tv)"

text \<open>
  The 64 bytes of \<open>icmp_packet\<close> after the header fields are set and \<open>send_time\<close> is copied
  to the start of \<open>data\<close>: type 8, code 0, checksum 0, \<open>htons(icmp_id)\<close>,
  \<open>htons((uint16_t)i)\<close>, the 16 bytes of the timestamp, and 40 bytes left zero.
\<close>

definition icmp_packet :: "16 word \<Rightarrow> int \<Rightarrow> timeval \<Rightarrow> byte list" where
  "icmp_packet icmp_id i send_time =
     [8, 0] @ store16 0 @ store16 (htons icmp_id) @ store16 (htons (word_of_int i))
     @ timeval_bytes send_time @ replicate 40 0"

text \<open>\<open>send_buffer\<close> as handed to \<open>sendto\<close>: the packet with its checksum written back.\<close>

definition send_buffer :: "16 word \<Rightarrow> int \<Rightarrow> timeval \<Rightarrow> byte list" where
  "send_buffer icmp_id i send_time =
     (let pkt = icmp_packet icmp_id i send_time;
          checksum = calculate_icmp_checksum pkt
      in store_checksum pkt checksum)"

subsection \<open>The probe\<close>

text \<open>What the kernel returns during the loop round with counter \<open>i\<close>.\<close>

record icmp_attempt =
  att_send_time :: timeval  \<comment> \<open>\<open>gettimeofday(&send_time)\<close>\<close>
  att_sendto :: int  \<comment> \<open>\<open>bytes_sent\<close>\<close>
  att_recvfrom :: int  \<comment> \<open>\<open>bytes_recv\<close>\<close>
  att_recv_buffer :: "byte list"  \<comment> \<open>the datagram \<open>recvfrom\<close> left in \<open>recv_buffer\<close>\<close>
  att_recv_time :: timeval  \<comment> \<open>\<open>gettimeofday(&recv_time)\<close>\<close>

record icmp_env =
  icmp_socket :: int
  icmp_inet_pton :: "string \<Rightarrow> int"
  icmp_getpid :: int
  icmp_attempts :: "int \<Rightarrow> icmp_attempt"

text \<open>What one loop round prints about its attempt.\<close>

datatype attempt_report =
    Send_failed
  | Echo_reply long  \<comment> \<open>``Echo Reply received'' with the RTT in milliseconds\<close>
  | No_reply

record ping_state =
  success_count :: int
  min_rtt :: long
  max_rtt :: long
  total_rtt :: long
  reports :: "attempt_report list"
  calls :: "syscall list"

text \<open>\<open>LLONG_MAX\<close>, the initial value of \<open>min_rtt\<close>.\<close>

definition LLONG_MAX :: long where
  "LLONG_MAX = 0x7FFFFFFFFFFFFFFF"

text \<open>The body of the \<open>for\<close> loop for counter \<open>i\<close>.\<close>

definition ping_attempt ::
  "icmp_env \<Rightarrow> int \<Rightarrow> 16 word \<Rightarrow> int \<Rightarrow> int \<Rightarrow> ping_state \<Rightarrow> ping_state" where
  "ping_attempt env sock icmp_id timeout_sec i st =
     (let a = icmp_attempts env i;
          send_time = att_send_time a;
          buf = send_buffer icmp_id i send_time;
          bytes_sent = att_sendto a;
          c1 = [Sys_gettimeofday, Sys_sendto sock buf]
      in if bytes_sent < 0 then
           st\<lparr>reports := reports st @ [Send_failed], calls := calls st @ c1\<rparr>
         else
           let bytes_recv = att_recvfrom a;
               c2 = c1 @ [Sys_setsockopt sock, Sys_recvfrom sock]
           in if bytes_recv > 0 then
                let recv_time = att_recv_time a;
                    rtt_ms = calculate_elapsed_ms send_time recv_time
                in st\<lparr>success_count := success_count st + 1,
                      total_rtt := total_rtt st + rtt_ms,
                      min_rtt := (if rtt_ms <s min_rtt st then rtt_ms else min_rtt st),
                      max_rtt := (if max_rtt st <s rtt_ms then rtt_ms else max_rtt st),
                      reports := reports st @ [Echo_reply rtt_ms],
                      calls := calls st @ c2 @ [Sys_gettimeofday]\<rparr>
              else
                st\<lparr>reports := reports st @ [No_reply], calls := calls st @ c2\<rparr>)"

text \<open>\<open>for (int i = 0; i < packet_count; i++)\<close>, entered with counter \<open>i\<close>.\<close>

function ping_loop ::
  "icmp_env \<Rightarrow> int \<Rightarrow> 16 word \<Rightarrow> int \<Rightarrow> int \<Rightarrow> int \<Rightarrow> ping_state \<Rightarrow> ping_state" where
  "ping_loop env sock icmp_id packet_count timeout_sec i st =
     (if i < packet_count then
        ping_loop env sock icmp_id packet_count timeout_sec (i + 1)
          (ping_attempt env sock icmp_id timeout_sec i st)
      else st)"
  by pat_completeness auto
termination
  by (relation "measure (\<lambda>(env, sock, icmp_id, packet_count, timeout_sec, i, st).
        nat (packet_count - i))") auto

declare ping_loop.simps [simp del]

text \<open>
  \<open>Percent_of a b\<close> stands for the single-precision value of the C expression
  \<open>((float)a / b) * 100\<close>. The model records the two integer operands and does not
  evaluate floating-point arithmetic.
\<close>

datatype cfloat_expr = Percent_of int int

datatype ping_error = Raw_socket_failed | Invalid_ip

text \<open>
  The result: the return value, the early error if any, and what the statistics block
  prints. A field is \<open>None\<close> when the run does not print that line.
\<close>

record ping_result =
  ping_ret :: int
  ping_error :: "ping_error option"
  packets_sent :: "int option"
  packets_received :: "int option"
  packet_loss :: "cfloat_expr option"
  min_rtt_ms :: "long option"
  max_rtt_ms :: "long option"
  avg_rtt_ms :: "long option"
  attempt_reports :: "attempt_report list"
  ping_calls :: "syscall list"

definition ping_failed :: "ping_error \<Rightarrow> syscall list \<Rightarrow> ping_result" where
  "ping_failed e cs =
     \<lparr>ping_ret = 0, ping_error = Some e, packets_sent = None, packets_received = None,
      packet_loss = None, min_rtt_ms = None, max_rtt_ms = None, avg_rtt_ms = None,
      attempt_reports = [], ping_calls = cs\<rparr>"

definition perform_icmp_ping :: "icmp_env \<Rightarrow> string \<Rightarrow> int \<Rightarrow> int \<Rightarrow> ping_result" where
  "perform_icmp_ping env ip packet_count timeout_sec =
     (let sock = icmp_socket env
      in if sock < 0 then ping_failed Raw_socket_failed [Sys_socket sock]
         else if icmp_inet_pton env ip \<le> 0 then
           ping_failed Invalid_ip [Sys_socket sock, Sys_inet_pton ip, Sys_close sock]
         else
           let icmp_id = (word_of_int (icmp_getpid env) :: 16 word);
               st0 = \<lparr>success_count = 0, min_rtt = LLONG_MAX, max_rtt = 0, total_rtt = 0,
                      reports = [],
                      calls = [Sys_socket sock, Sys_inet_pton ip, Sys_getpid]\<rparr>;
               st = ping_loop env sock icmp_id packet_count timeout_sec 0 st0;
               cs = calls st @ [Sys_close sock]
           in if success_count st > 0 then
                \<lparr>ping_ret = 1, ping_error = None,
                 packets_sent = Some packet_count,
                 packets_received = Some (success_count st),
                 packet_loss = Some (Percent_of (packet_count - success_count st) packet_count),
                 min_rtt_ms = Some (min_rtt st),
                 max_rtt_ms = Some (max_rtt st),
                 avg_rtt_ms = Some (sdiv64 (total_rtt st) (word_of_int (success_count st))),
                 attempt_reports = reports st, ping_calls = cs\<rparr>
              else
                \<lparr>ping_ret = 0, ping_error = None,
                 packets_sent = Some packet_count,
                 packets_received = Some (success_count st),
                 packet_loss = None, min_rtt_ms = None, max_rtt_ms = None, avg_rtt_ms = None,
                 attempt_reports = reports st, ping_calls = cs\<rparr>)"

text \<open>The raw socket was created and the address parsed, so the loop is entered.\<close>

definition ping_starts :: "icmp_env \<Rightarrow> string \<Rightarrow> bool" where
  "ping_starts env ip \<longleftrightarrow> 0 \<le> icmp_socket env \<and> 0 < icmp_inet_pton env ip"

text \<open>
  Round \<open>i\<close> got a datagram: the request went out and \<open>recvfrom\<close> returned a positive
  byte count before the receive timeout.
\<close>

definition got_datagram :: "icmp_env \<Rightarrow> int \<Rightarrow> bool" where
  "got_datagram env i \<longleftrightarrow>
     0 \<le> att_sendto (icmp_attempts env i) \<and> 0 < att_recvfrom (icmp_attempts env i)"

section \<open>Service discovery scanner\<close>

text \<open>What the kernel returns for catalog index \<open>i\<close> in the first and in the last loop.\<close>

record scan_env =
  scan_inet_pton :: "string \<Rightarrow> int"
  scan_socket :: "nat \<Rightarrow> int"  \<comment> \<open>result of \<open>socket\<close> in round \<open>i\<close>\<close>
  scan_connect :: "nat \<Rightarrow> int"  \<comment> \<open>result of \<open>connect\<close> in round \<open>i\<close>\<close>
  scan_errno :: "nat \<Rightarrow> int"  \<comment> \<open>\<open>errno\<close> after that \<open>connect\<close>\<close>
  scan_so_error :: "nat \<Rightarrow> int"  \<comment> \<open>\<open>error\<close> after \<open>getsockopt(SO_ERROR)\<close> on \<open>sockets[i]\<close>\<close>
  scan_fd_isset :: "nat \<Rightarrow> bool"  \<comment> \<open>\<open>FD_ISSET(sockets[i], &write_set)\<close> after \<open>select\<close>\<close>

text \<open>The per-port lines the scanner prints, with port number and (where printed) name.\<close>

datatype scan_line =
    Socket_creation_failed int
  | Connection_error int string
  | Port_open int string
  | Port_closed_filtered int string

record scan_state =
  sockets :: "int list"
  open_count :: int
  scan_lines :: "scan_line list"
  scan_calls :: "syscall list"

text \<open>Body of the first loop: create the socket for entry \<open>i\<close> and start the connection.\<close>

definition scan_initiate :: "scan_env \<Rightarrow> scan_state \<Rightarrow> nat \<Rightarrow> scan_state" where
  "scan_initiate env st i =
     (let entry = COMMON_PORTS ! i;
          s = scan_socket env i
      in if s < 0 then
           st\<lparr>sockets := (sockets st)[i := - 1],
              scan_lines := scan_lines st @ [Socket_creation_failed (svc_port entry)],
              scan_calls := scan_calls st @ [Sys_socket s]\<rparr>
         else
           let result = scan_connect env i;
               c = [Sys_socket s, Sys_fcntl s, Sys_fcntl s, Sys_connect s]
           in if result < 0 \<and> scan_errno env i \<noteq> EINPROGRESS then
                st\<lparr>sockets := (sockets st)[i := - 1],
                   scan_lines := scan_lines st
                     @ [Connection_error (svc_port entry) (svc_name entry)],
                   scan_calls := scan_calls st @ c @ [Sys_close s]\<rparr>
              else
                st\<lparr>sockets := (sockets st)[i := s],
                   scan_calls := scan_calls st @ c\<rparr>)"

text \<open>Body of the last loop: classify entry \<open>i\<close> and close its socket.\<close>

definition scan_classify :: "scan_env \<Rightarrow> scan_state \<Rightarrow> nat \<Rightarrow> scan_state" where
  "scan_classify env st i =
     (let s = sockets st ! i
      in if s < 0 then st
         else
           let entry = COMMON_PORTS ! i;
               error = scan_so_error env i;
               c = [Sys_getsockopt s, Sys_close s]
           in if error = 0 \<and> scan_fd_isset env i then
                st\<lparr>open_count := open_count st + 1,
                   scan_lines := scan_lines st @ [Port_open (svc_port entry) (svc_name entry)],
                   scan_calls := scan_calls st @ c\<rparr>
              else
                st\<lparr>scan_lines := scan_lines st
                     @ [Port_closed_filtered (svc_port entry) (svc_name entry)],
                   scan_calls := scan_calls st @ c\<rparr>)"

text \<open>
  The result: whether the address was rejected, the per-port lines in print order, the
  two counters of the summary and the system calls.
\<close>

record scan_result =
  invalid_ip :: bool
  result_lines :: "scan_line list"
  open_ports :: int
  closed_filtered :: int
  result_calls :: "syscall list"

text \<open>
  The three loops run over the indices \<open>0 \<dots> NUM_COMMON_PORTS - 1\<close>. The array \<open>sockets\<close>
  starts with arbitrary contents; every element is assigned in the first loop before
  it is read. The second loop collects the descriptors that are not negative into the
  write set handed to \<open>select\<close>.
\<close>

definition scan_services_in_range :: "scan_env \<Rightarrow> string \<Rightarrow> int \<Rightarrow> scan_result" where
  "scan_services_in_range env ip timeout_sec =
     (if scan_inet_pton env ip \<le> 0 then
        \<lparr>invalid_ip = True, result_lines = [], open_ports = 0, closed_filtered = 0,
         result_calls = [Sys_inet_pton ip]\<rparr>
      else
        let st0 = \<lparr>sockets = replicate NUM_COMMON_PORTS 0, open_count = 0,
                   scan_lines = [], scan_calls = [Sys_inet_pton ip]\<rparr>;
            st1 = foldl (scan_initiate env) st0 [0..<NUM_COMMON_PORTS];
            write_set = filter (\<lambda>s. 0 \<le> s) (sockets st1);
            st2 = st1\<lparr>scan_calls := scan_calls st1 @ [Sys_select write_set timeout_sec]\<rparr>;
            st3 = foldl (scan_classify env) st2 [0..<NUM_COMMON_PORTS]
        in \<lparr>invalid_ip = False, result_lines = scan_lines st3, open_ports = open_count st3,
            closed_filtered = int NUM_COMMON_PORTS - open_count st3,
            result_calls = scan_calls st3\<rparr>)"

text \<open>
  Entry \<open>i\<close> keeps a pending socket after the first loop: \<open>socket\<close> succeeded and
  \<open>connect\<close> did not fail outright.
\<close>

definition pending :: "scan_env \<Rightarrow> nat \<Rightarrow> bool" where
  "pending env i \<longleftrightarrow>
     0 \<le> scan_socket env i \<and> \<not> (scan_connect env i < 0 \<and> scan_errno env i \<noteq> EINPROGRESS)"

text \<open>The line the first loop prints for entry \<open>i\<close>, if any.\<close>

definition initiate_line :: "scan_env \<Rightarrow> nat \<Rightarrow> scan_line list" where
  "initiate_line env i =
     (if scan_socket env i < 0 then [Socket_creation_failed (svc_port (COMMON_PORTS ! i))]
      else if scan_connect env i < 0 \<and> scan_errno env i \<noteq> EINPROGRESS then
        [Connection_error (svc_port (COMMON_PORTS ! i)) (svc_name (COMMON_PORTS ! i))]
      else [])"

text \<open>The classification the last loop prints for a pending entry \<open>i\<close>.\<close>

definition classification :: "scan_env \<Rightarrow> nat \<Rightarrow> scan_line" where
  "classification env i =
     (if scan_so_error env i = 0 \<and> scan_fd_isset env i then
        Port_open (svc_port (COMMON_PORTS ! i)) (svc_name (COMMON_PORTS ! i))
      else Port_closed_filtered (svc_port (COMMON_PORTS ! i)) (svc_name (COMMON_PORTS ! i)))"

fun line_port :: "scan_line \<Rightarrow> int" where
  "line_port (Socket_creation_failed p) = p"
| "line_port (Connection_error p n) = p"
| "line_port (Port_open p n) = p"
| "line_port (Port_closed_filtered p n) = p"

fun is_classification :: "scan_line \<Rightarrow> bool" where
  "is_classification (Port_open p n) = True"
| "is_classification (Port_closed_filtered p n) = True"
| "is_classification _ = False"

section \<open>Notions used to state the properties\<close>

subsection \<open>ICMP probe\<close>

text \<open>What round \<open>i\<close> reports, read off the kernel's answers for that round.\<close>

definition round_report :: "icmp_env \<Rightarrow> int \<Rightarrow> attempt_report" where
  "round_report env i =
     (let a = icmp_attempts env i
      in if att_sendto a < 0 then Send_failed
         else if 0 < att_recvfrom a then
           Echo_reply (calculate_elapsed_ms (att_send_time a) (att_recv_time a))
         else No_reply)"

text \<open>The number of rounds \<open>0 \<dots> n - 1\<close> that got a datagram.\<close>

definition replies :: "icmp_env \<Rightarrow> int \<Rightarrow> int" where
  "replies env n = int (length (filter (got_datagram env) [0..n - 1]))"

text \<open>
  A datagram read from a raw ICMP socket starts with the IPv4 header, whose length in
  32-bit words is the low nibble of its first byte; the ICMP message follows: type,
  code, checksum, then identifier and sequence number in network byte order, then the
  payload. These readers recover the fields that tie an echo reply to its request.
  The probe itself never calls them.
\<close>

definition icmp_message :: "byte list \<Rightarrow> byte list" where
  "icmp_message dgram =
     (case dgram of [] \<Rightarrow> [] | b # _ \<Rightarrow> drop (4 * unat (b AND 0x0F)) dgram)"

definition be16 :: "byte \<Rightarrow> byte \<Rightarrow> 16 word" where
  "be16 hi lo = 256 * ucast hi + ucast lo"

definition reply_ident :: "byte list \<Rightarrow> 16 word option" where
  "reply_ident dgram =
     (let m = icmp_message dgram
      in if 8 \<le> length m then Some (be16 (m ! 4) (m ! 5)) else None)"

definition reply_seq :: "byte list \<Rightarrow> 16 word option" where
  "reply_seq dgram =
     (let m = icmp_message dgram
      in if 8 \<le> length m then Some (be16 (m ! 6) (m ! 7)) else None)"

definition load64 :: "byte list \<Rightarrow> long" where
  "load64 bs = foldr (\<lambda>b acc. ucast b + 256 * acc) bs 0"

definition reply_timestamp :: "byte list \<Rightarrow> timeval option" where
  "reply_timestamp dgram =
     (let m = icmp_message dgram
      in if 24 \<le> length m then
           Some \<lparr>tv_sec = load64 (take 8 (drop 8 m)), tv_usec = load64 (take 8 (drop 16 m))\<rparr>
         else None)"

text \<open>
  The datagram a host returns for an echo request: a 20-byte IPv4 header, then the
  request with type 0 and the checksum recomputed.
\<close>

definition ipv4_header :: "byte list" where
  "ipv4_header = [0x45, 0, 0, 84, 0, 0, 0, 0, 64, 1, 0, 0, 10, 0, 0, 2, 10, 0, 0, 1]"

definition echo_reply_to :: "byte list \<Rightarrow> byte list" where
  "echo_reply_to request =
     (let m = request[0 := 0, 2 := 0, 3 := 0]
      in ipv4_header @ store_checksum m (calculate_icmp_checksum m))"

subsection \<open>Scanner\<close>

text \<open>The descriptors of the pending entries among the first \<open>n\<close>, in catalog order.\<close>

definition pending_fds :: "scan_env \<Rightarrow> nat \<Rightarrow> int list" where
  "pending_fds env n = map (scan_socket env) (filter (pending env) [0..<n])"

section \<open>Example environments\<close>

text \<open>A listening port on the local host: the handshake completes within a millisecond.\<close>

definition tcp_env_open :: tcp_env where
  "tcp_env_open =
     \<lparr>tcp_start_time = \<lparr>tv_sec = 100, tv_usec = 999999\<rparr>, tcp_socket = 3,
      tcp_inet_pton = (\<lambda>ip. 1), tcp_connect = - 1, tcp_errno = 115, tcp_select = 1,
      tcp_so_error = 0, tcp_end_time = \<lparr>tv_sec = 101, tv_usec = 0\<rparr>\<rparr>"

text \<open>No answer within the timeout, and a refused connection (\<open>ECONNREFUSED\<close> is 111).\<close>

definition tcp_env_timeout :: tcp_env where
  "tcp_env_timeout = tcp_env_open\<lparr>tcp_select := 0\<rparr>"

definition tcp_env_refused :: tcp_env where
  "tcp_env_refused = tcp_env_open\<lparr>tcp_so_error := 111\<rparr>"

text \<open>A round whose request goes out and whose \<open>recvfrom\<close> times out.\<close>

definition silent_attempt :: "int \<Rightarrow> icmp_attempt" where
  "silent_attempt i =
     \<lparr>att_send_time = \<lparr>tv_sec = word_of_int (100 + 2 * i), tv_usec = 0\<rparr>, att_sendto = 64,
      att_recvfrom = - 1, att_recv_buffer = [], att_recv_time = \<lparr>tv_sec = 0, tv_usec = 0\<rparr>\<rparr>"

text \<open>A round that receives the echo of its own request after 20 ms.\<close>

definition echoed_attempt :: "int \<Rightarrow> icmp_attempt" where
  "echoed_attempt i =
     \<lparr>att_send_time = \<lparr>tv_sec = word_of_int (100 + 2 * i), tv_usec = 0\<rparr>, att_sendto = 64,
      att_recvfrom = 84,
      att_recv_buffer =
        echo_reply_to (send_buffer 0x1234 i \<lparr>tv_sec = word_of_int (100 + 2 * i), tv_usec = 0\<rparr>),
      att_recv_time = \<lparr>tv_sec = word_of_int (100 + 2 * i), tv_usec = 20000\<rparr>\<rparr>"

text \<open>A host that never answers; the probe runs as process \<open>0x1234\<close>.\<close>

definition ping_env_silent :: icmp_env where
  "ping_env_silent =
     \<lparr>icmp_socket = 3, icmp_inet_pton = (\<lambda>ip. 1), icmp_getpid = 0x1234,
      icmp_attempts = silent_attempt\<rparr>"

text \<open>A host that answers every request.\<close>

definition ping_env_echo :: icmp_env where
  "ping_env_echo = ping_env_silent\<lparr>icmp_attempts := echoed_attempt\<rparr>"

text \<open>
  A slow host: round 0 (sent at 100 s) times out after two seconds; its echo arrives
  during round 1 (sent at 102 s), half a second after that round's request.
\<close>

definition ping_env_late :: icmp_env where
  "ping_env_late =
     ping_env_silent\<lparr>icmp_attempts := (\<lambda>i.
       if i = 1 then
         \<lparr>att_send_time = \<lparr>tv_sec = 102, tv_usec = 0\<rparr>, att_sendto = 64, att_recvfrom = 84,
          att_recv_buffer = echo_reply_to (send_buffer 0x1234 0 \<lparr>tv_sec = 100, tv_usec = 0\<rparr>),
          att_recv_time = \<lparr>tv_sec = 102, tv_usec = 500000\<rparr>\<rparr>
       else silent_attempt i)\<rparr>"

text \<open>
  Another process (identifier \<open>0xBEEF\<close>) pings from the same host; the echo of its
  request number 9 reaches this probe's raw socket during round 0.
\<close>

definition ping_env_stray :: icmp_env where
  "ping_env_stray =
     ping_env_silent\<lparr>icmp_attempts := (\<lambda>i.
       if i = 0 then
         \<lparr>att_send_time = \<lparr>tv_sec = 100, tv_usec = 0\<rparr>, att_sendto = 64, att_recvfrom = 84,
          att_recv_buffer = echo_reply_to (send_buffer 0xBEEF 9 \<lparr>tv_sec = 50, tv_usec = 0\<rparr>),
          att_recv_time = \<lparr>tv_sec = 100, tv_usec = 30000\<rparr>\<rparr>
       else silent_attempt i)\<rparr>"

text \<open>
  A host with a web server only: every socket is created, every connection is in
  progress, entry 4 (HTTP) completes and the others are refused.
\<close>

definition scan_env_web :: scan_env where
  "scan_env_web =
     \<lparr>scan_inet_pton = (\<lambda>ip. 1), scan_socket = (\<lambda>i. 3 + int i), scan_connect = (\<lambda>i. - 1),
      scan_errno = (\<lambda>i. 115), scan_so_error = (\<lambda>i. if i = 4 then 0 else 111),
      scan_fd_isset = (\<lambda>i. True)\<rparr>"

text \<open>The same host when the process cannot create the socket for entry 0.\<close>

definition scan_env_no_socket :: scan_env where
  "scan_env_no_socket =
     scan_env_web\<lparr>scan_socket := (\<lambda>i. if i = 0 then - 1 else 3 + int i)\<rparr>"

section \<open>Word arithmetic\<close>

lemma unat_lt8: "unat (s :: 8 word) < 256"
  using unsigned_less [of s, where 'a = nat] by simp

lemma unat_lt16: "unat (s :: 16 word) < 65536"
  using unsigned_less [of s, where 'a = nat] by simp

lemma unat_ucast_16_32: "unat (ucast (c :: 16 word) :: 32 word) = unat c"
  using unat_lt16 [of c] by (simp add: unsigned_ucast_eq take_bit_nat_eq_self)

lemma unat_ucast_8_16: "unat (ucast (c :: 8 word) :: 16 word) = unat c"
  using unat_lt8 [of c] by (simp add: unsigned_ucast_eq take_bit_nat_eq_self)

lemma unat_load16: "unat (load16 b0 b1) = unat b0 + 256 * unat b1"
proof -
  have "unat b0 + 256 * unat b1 < 65536"
    using unat_lt8 [of b0] unat_lt8 [of b1] by arith
  then show ?thesis
    by (simp add: load16_def unat_word_ariths unat_ucast_8_16)
qed

lemma neg_pred_mod: "(- x - 1) mod 65536 = 65535 - (x :: int) mod 65536"
proof -
  define q r where "q = x div 65536" and "r = x mod 65536"
  have r: "0 \<le> r" "r < 65536" by (simp_all add: r_def)
  have "x = q * 65536 + r" by (simp add: q_def r_def)
  then have "- x - 1 = (65535 - r) + 65536 * (- q - 1)" by simp
  then have "(- x - 1) mod 65536 = (65535 - r) mod 65536"
    by (simp only: mod_mult_self2)
  also have "\<dots> = 65535 - r"
    using r by (intro mod_pos_pos_trivial) simp_all
  finally show ?thesis by (simp only: r_def)
qed

lemma uint_not16: "uint (ucast (NOT (f :: 32 word)) :: 16 word) = 65535 - uint f mod 65536"
proof -
  have "uint (ucast (NOT f) :: 16 word) = take_bit LENGTH(16) (uint (NOT f))"
    by (rule unsigned_ucast_eq)
  also have "uint (NOT f) = take_bit LENGTH(32) (NOT (uint f))"
    by (rule unsigned_not_eq)
  finally have "uint (ucast (NOT f) :: 16 word) = (- uint f - 1) mod 4294967296 mod 65536"
    by (simp add: take_bit_eq_mod not_int_def)
  also have "\<dots> = (- uint f - 1) mod 65536"
    by (rule mod_mod_cancel) simp
  also have "\<dots> = 65535 - uint f mod 65536"
    by (rule neg_pred_mod)
  finally show ?thesis .
qed

lemma unat_not16: "unat (ucast (NOT (f :: 32 word)) :: 16 word) = 65535 - unat f mod 65536"
proof -
  have a: "unat (ucast (NOT f) :: 16 word) = nat (65535 - uint f mod 65536)"
    by (simp only: unat_eq_nat_uint uint_not16)
  have "uint f mod 65536 = int (unat f) mod int 65536"
    by simp
  then have b: "uint f mod 65536 = int (unat f mod 65536)"
    by (simp only: zmod_int)
  show ?thesis
    by (simp only: a b)
qed

lemma unat_shr8: "unat (drop_bit 8 (c :: 16 word)) = unat c div 256"
  by (simp only: unat_drop_bit_eq) (simp add: drop_bit_eq_div)

lemma load16_store: "load16 (ucast (c :: 16 word)) (ucast (drop_bit 8 c)) = c"
proof -
  have a: "unat (ucast c :: 8 word) = unat c mod 256"
    by (simp add: unsigned_ucast_eq take_bit_eq_mod)
  have "unat (ucast (drop_bit 8 c) :: 8 word) = take_bit LENGTH(8) (unat (drop_bit 8 c))"
    by (rule unsigned_ucast_eq)
  then have b: "unat (ucast (drop_bit 8 c) :: 8 word) = unat c div 256"
    using unat_lt16 [of c] by (simp only: unat_shr8 take_bit_eq_mod) simp
  have "unat (load16 (ucast c) (ucast (drop_bit 8 c))) = unat c"
    by (simp only: unat_load16 a b) simp
  then show ?thesis by (simp add: word_unat_eq_iff)
qed


lemma unat_lt32: "unat (s :: 32 word) < 4294967296"
  using unsigned_less [of s, where 'a = nat] by simp

lemma and_ffff: "(s :: 32 word) AND 0xFFFF = s mod 65536"
proof -
  have "s AND mask 16 = s mod 2 ^ 16"
    by (simp only: take_bit_eq_mask [symmetric] take_bit_eq_mod)
  then show ?thesis by (simp add: mask_eq_exp_minus_1)
qed

lemma unat_and_ffff: "unat ((s :: 32 word) AND 0xFFFF) = unat s mod 65536"
  by (simp add: and_ffff unat_word_ariths)

lemma unat_shr16: "unat (drop_bit 16 (s :: 32 word)) = unat s div 65536"
  by (simp only: unat_drop_bit_eq) (simp add: drop_bit_eq_div)

lemma fold_step_unat:
  fixes s :: "32 word"
  shows "unat ((s AND 0xFFFF) + drop_bit 16 s) = unat s mod 65536 + unat s div 65536"
proof -
  define q r where "q = unat s div 65536" and "r = unat s mod 65536"
  have "r < 65536" by (simp add: r_def)
  moreover have "q < 65536" using unat_lt32 [of s] by (simp add: q_def less_mult_imp_div_less)
  ultimately have "r + q < 4294967296" by simp
  then show ?thesis
    by (simp add: unat_word_ariths unat_and_ffff unat_shr16 q_def r_def)
qed

lemma shr16_nonzero: "drop_bit 16 (s :: 32 word) \<noteq> 0 \<longleftrightarrow> 65536 \<le> unat s"
proof -
  have "drop_bit 16 s = 0 \<longleftrightarrow> unat (drop_bit 16 s) = 0"
    by (simp add: unsigned_eq_0_iff)
  also have "\<dots> \<longleftrightarrow> unat s < 65536"
    by (simp only: unat_shr16) (simp add: div_eq_0_iff)
  finally show ?thesis by auto
qed

section \<open>Properties of the timing utility\<close>

lemma sint_sub64:
  fixes a b :: long
  assumes "- 9223372036854775808 \<le> sint a - sint b" "sint a - sint b < 9223372036854775808"
  shows "sint (a - b) = sint a - sint b"
  using assms by (simp add: sint_word_diff signed_take_bit_int_eq_self)

lemma sint_add64:
  fixes a b :: long
  assumes "- 9223372036854775808 \<le> sint a + sint b" "sint a + sint b < 9223372036854775808"
  shows "sint (a + b) = sint a + sint b"
  using assms by (simp add: sint_word_add signed_take_bit_int_eq_self)

lemma sint_mult64:
  fixes a b :: long
  assumes "- 9223372036854775808 \<le> sint a * sint b" "sint a * sint b < 9223372036854775808"
  shows "sint (a * b) = sint a * sint b"
  using assms by (simp add: sint_word_mult signed_take_bit_int_eq_self)

lemma sint_of_int64:
  assumes "- 9223372036854775808 \<le> k" "k < 9223372036854775808"
  shows "sint (word_of_int k :: long) = k"
proof -
  have "sint (word_of_int k :: long) = signed_take_bit (LENGTH(64) - 1) k"
    by (rule sint_sbintrunc')
  also have "\<dots> = k"
    using assms by (simp add: signed_take_bit_int_eq_self)
  finally show ?thesis .
qed

lemma sdiv_1000_bounds:
  fixes u :: int
  assumes "- 999999 \<le> u" "u \<le> 999999"
  shows "- 999 \<le> u sdiv 1000" "u sdiv 1000 \<le> 999" "0 \<le> u \<Longrightarrow> 0 \<le> u sdiv 1000"
proof -
  have a: "\<bar>u\<bar> div 1000 \<le> 999"
  proof -
    have "\<bar>u\<bar> \<le> 999999" using assms by simp
    then have "\<bar>u\<bar> div 1000 \<le> 999999 div 1000" by (rule zdiv_mono1) simp
    then show ?thesis by simp
  qed
  have b: "0 \<le> \<bar>u\<bar> div 1000" by (simp add: pos_imp_zdiv_nonneg_iff)
  define m where "m = \<bar>u\<bar> div 1000"
  have c: "u sdiv 1000 = (if 0 \<le> u then m else - m)"
    by (simp add: signed_divide_int_def sgn_if m_def)
  have m: "0 \<le> m" "m \<le> 999" using a b by (simp_all add: m_def)
  show "- 999 \<le> u sdiv 1000" using m unfolding c by simp
  show "u sdiv 1000 \<le> 999" using m unfolding c by simp
  show "0 \<le> u \<Longrightarrow> 0 \<le> u sdiv 1000" using m unfolding c by simp
qed

lemma elapsed_ms_value:
  assumes us: "0 \<le> sint (tv_usec s)" "sint (tv_usec s) \<le> 999999"
    and ue: "0 \<le> sint (tv_usec e)" "sint (tv_usec e) \<le> 999999"
    and d0: "0 \<le> sint (tv_sec e) - sint (tv_sec s)"
    and d1: "sint (tv_sec e) - sint (tv_sec s) < 9223372036854775"
  shows "sint (calculate_elapsed_ms s e) =
           (sint (tv_sec e) - sint (tv_sec s)) * 1000
           + (sint (tv_usec e) - sint (tv_usec s)) sdiv 1000"
proof -
  define d where "d = sint (tv_sec e) - sint (tv_sec s)"
  define u where "u = sint (tv_usec e) - sint (tv_usec s)"
  have d: "0 \<le> d" "d < 9223372036854775" using d0 d1 by (simp_all add: d_def)
  have u: "- 999999 \<le> u" "u \<le> 999999" using us ue by (simp_all add: u_def)
  have sd: "sint (tv_sec e - tv_sec s) = d"
    unfolding d_def using d by (intro sint_sub64) (simp_all add: d_def)
  have m: "sint ((tv_sec e - tv_sec s) * 1000) = d * 1000"
  proof -
    have "sint ((tv_sec e - tv_sec s) * 1000) = sint (tv_sec e - tv_sec s) * sint (1000 :: long)"
      using d by (intro sint_mult64) (simp_all add: sd)
    then show ?thesis by (simp add: sd)
  qed
  have su: "sint (tv_usec e - tv_usec s) = u"
    unfolding u_def using u by (intro sint_sub64) (simp_all add: u_def)
  have q: "- 999 \<le> u sdiv 1000" "u sdiv 1000 \<le> 999"
    using sdiv_1000_bounds(1,2) [OF u] by simp_all
  have sq: "sint (sdiv64 (tv_usec e - tv_usec s) 1000) = u sdiv 1000"
    unfolding sdiv64_def using q by (simp add: su sint_of_int64)
  define sw where "sw = (tv_sec e - tv_sec s) * 1000"
  define mw where "mw = sdiv64 (tv_usec e - tv_usec s) 1000"
  have sws: "sint sw = d * 1000" unfolding sw_def by (rule m)
  have mws: "sint mw = u sdiv 1000" unfolding mw_def by (rule sq)
  have "sint (sw + mw) = sint sw + sint mw"
  proof (rule sint_add64)
    show "- 9223372036854775808 \<le> sint sw + sint mw"
      unfolding sws mws using d q by linarith
    show "sint sw + sint mw < 9223372036854775808"
      unfolding sws mws using d q by linarith
  qed
  then have "sint (sw + mw) = d * 1000 + u sdiv 1000"
    by (simp only: sws mws)
  moreover have "calculate_elapsed_ms s e = sw + mw"
    by (simp only: calculate_elapsed_ms_def Let_def sw_def mw_def)
  ultimately show ?thesis
    by (simp only: d_def u_def)
qed

section \<open>Properties of the checksum\<close>

lemma fold_carry_lt: "unat (fold_carry s) < 65536"
proof (induction s rule: fold_carry.induct)
  case (1 s)
  show ?case
  proof (cases "drop_bit 16 s \<noteq> 0")
    case True
    then show ?thesis using 1 by (simp add: fold_carry.simps [of s])
  next
    case False
    then have "unat s < 65536" using shr16_nonzero [of s] by simp
    with False show ?thesis by (simp add: fold_carry.simps [of s])
  qed
qed

lemma fold_step_mod: "(n mod 65536 + n div 65536) mod 65535 = (n :: nat) mod 65535"
proof -
  define q r where "q = n div 65536" and "r = n mod 65536"
  have "n = (r + q) + q * 65535" by (simp add: q_def r_def)
  then have "n mod 65535 = (r + q) mod 65535" by (simp only: mod_mult_self1)
  then show ?thesis by (simp only: q_def r_def)
qed

lemma fold_carry_mod: "unat (fold_carry s) mod 65535 = unat s mod 65535"
proof (induction s rule: fold_carry.induct)
  case (1 s)
  show ?case
  proof (cases "drop_bit 16 s \<noteq> 0")
    case True
    then have "unat (fold_carry s) mod 65535 = unat ((s AND 0xFFFF) + drop_bit 16 s) mod 65535"
      using 1 by (simp add: fold_carry.simps [of s])
    then show ?thesis by (simp only: fold_step_unat fold_step_mod)
  next
    case False
    then show ?thesis by (simp add: fold_carry.simps [of s])
  qed
qed

lemma fold_carry_zero: "fold_carry s = 0 \<longleftrightarrow> s = 0"
proof (induction s rule: fold_carry.induct)
  case (1 s)
  show ?case
  proof (cases "drop_bit 16 s \<noteq> 0")
    case True
    then have ge: "65536 \<le> unat s" by (simp only: shr16_nonzero)
    then have "0 < unat s div 65536" by (simp add: div_greater_zero_iff)
    then have "unat s mod 65536 + unat s div 65536 \<noteq> 0" by simp
    then have "unat ((s AND 0xFFFF) + drop_bit 16 s) \<noteq> 0"
      unfolding fold_step_unat .
    then have "(s AND 0xFFFF) + drop_bit 16 s \<noteq> 0" by (simp add: unsigned_eq_0_iff)
    moreover have "s \<noteq> 0" using ge by auto
    ultimately show ?thesis using 1 True by (simp add: fold_carry.simps [of s])
  next
    case False
    then show ?thesis by (simp add: fold_carry.simps [of s])
  qed
qed

lemma sum_words_acc: "sum_words xs s = s + sum_words xs 0"
proof (induction xs arbitrary: s rule: induct_list012)
  case (3 x y zs)
  have "sum_words (x # y # zs) s = (s + ucast (load16 x y)) + sum_words zs 0"
    using 3(1) [of "s + ucast (load16 x y)"] by simp
  moreover have "sum_words (x # y # zs) 0 = ucast (load16 x y) + sum_words zs 0"
    using 3(1) [of "ucast (load16 x y)"] by simp
  ultimately show ?case by (simp add: add.assoc)
qed simp_all

lemma load16_zero: "load16 0 0 = 0"
  by (simp add: load16_def)

lemma sum_words_store:
  assumes "4 \<le> length buf" "buf ! 2 = 0" "buf ! 3 = 0"
  shows "sum_words (store_checksum buf c) 0 = sum_words buf 0 + ucast c"
proof -
  from assms(1) obtain a0 a1 a2 a3 rest where buf: "buf = a0 # a1 # a2 # a3 # rest"
    by (auto simp: Suc_le_length_iff eval_nat_numeral)
  with assms(2,3) have z: "a2 = 0" "a3 = 0" by simp_all
  have st: "store_checksum buf c = a0 # a1 # ucast c # ucast (drop_bit 8 c) # rest"
    by (simp add: buf store_checksum_def)
  have "sum_words (store_checksum buf c) 0
      = (ucast (load16 a0 a1) + ucast c) + sum_words rest 0"
    using sum_words_acc [of rest "ucast (load16 a0 a1) + ucast c"]
    by (simp add: st load16_store)
  moreover have "sum_words buf 0 = ucast (load16 a0 a1) + sum_words rest 0"
    using sum_words_acc [of rest "ucast (load16 a0 a1)"]
    by (simp add: buf z load16_zero)
  ultimately show ?thesis by (simp add: add.assoc add.commute)
qed

lemma checksum_arith:
  fixes r f :: nat
  assumes r: "r < 4294967296" and f: "f < 65536"
    and cong: "f mod 65535 = r mod 65535" and zero: "f = 0 \<longleftrightarrow> r = 0"
  shows "r + (65535 - f) < 4294967296 \<and> (r + (65535 - f)) mod 65535 = 0 \<and> r + (65535 - f) \<noteq> 0"
proof -
  define n where "n = r + (65535 - f)"
  have nz: "n \<noteq> 0" using zero f by (cases "r = 0") (simp_all add: n_def)
  have "n mod 65535 = (r mod 65535 + (65535 - f)) mod 65535"
    unfolding n_def by (simp only: mod_add_left_eq)
  also have "\<dots> = (f mod 65535 + (65535 - f)) mod 65535"
    by (simp only: cong)
  also have "\<dots> = 0"
  proof (cases "f = 65535")
    case True
    then show ?thesis by simp
  next
    case False
    with f have "f < 65535" by simp
    then show ?thesis by simp
  qed
  finally have dv: "n mod 65535 = 0" .
  then obtain k where k: "n = 65535 * k" by (auto simp: mod_eq_0_iff_dvd)
  have "n < 4294967296"
  proof (rule ccontr)
    assume "\<not> n < 4294967296"
    then have big: "4294967296 \<le> n" by simp
    then have "r \<noteq> 0" using f by (auto simp: n_def)
    then have "f \<noteq> 0" using zero by simp
    then have "n \<le> r + 65534" by (simp add: n_def)
    then have up: "n < 4294967296 + 65534" using r by simp
    have "65538 \<le> k"
    proof (rule ccontr)
      assume "\<not> 65538 \<le> k"
      then have "k \<le> 65537" by simp
      then have "65535 * k \<le> 65535 * 65537" by (simp only: mult_le_mono2)
      then show False using big k by simp
    qed
    then have "65535 * 65538 \<le> 65535 * k" by (simp only: mult_le_mono2)
    then show False using up k by simp
  qed
  with dv nz show ?thesis by (simp add: n_def)
qed

lemma multiple_in_range:
  fixes f :: nat
  assumes "f < 65536" "f mod 65535 = 0" "f \<noteq> 0"
  shows "f = 65535"
proof -
  from assms(2) obtain k where k: "f = 65535 * k" by (auto simp: mod_eq_0_iff_dvd)
  with assms(3) have "0 < k" by simp
  moreover have "k < 2"
  proof (rule ccontr)
    assume "\<not> k < 2"
    then have "2 \<le> k" by simp
    then have "65535 * 2 \<le> 65535 * k" by (simp only: mult_le_mono2)
    then show False using assms(1) k by simp
  qed
  ultimately have "k = 1" by simp
  with k show ?thesis by simp
qed

section \<open>Properties of the ICMP loop\<close>

lemma ping_attempt_count:
  "success_count (ping_attempt env sock icmp_id t i st) =
     success_count st + (if got_datagram env i then 1 else 0)"
  by (simp add: ping_attempt_def Let_def got_datagram_def)

lemma ping_attempt_reports:
  "reports (ping_attempt env sock icmp_id t i st) = reports st @ [round_report env i]"
  by (simp add: ping_attempt_def Let_def round_report_def)

lemma open_sockets_append:
  "open_sockets (cs @ ds) fds = open_sockets ds (open_sockets cs fds)"
  by (induction cs fds rule: open_sockets.induct) simp_all

lemma ping_attempt_sockets:
  "open_sockets (calls (ping_attempt env sock icmp_id t i st)) fds = open_sockets (calls st) fds"
  by (simp add: ping_attempt_def Let_def open_sockets_append)

lemma ping_loop_count:
  "success_count (ping_loop env sock icmp_id n t i st) =
     success_count st + int (length (filter (got_datagram env) [i..n - 1]))"
proof (induction env sock icmp_id n t i st rule: ping_loop.induct)
  case (1 env sock icmp_id n t i st)
  show ?case
  proof (cases "i < n")
    case True
    then have "[i..n - 1] = i # [i + 1..n - 1]" by (simp add: upto_rec1)
    with True 1 show ?thesis
      by (simp add: ping_loop.simps [of env sock icmp_id n t i st] ping_attempt_count)
  next
    case False
    then show ?thesis by (simp add: ping_loop.simps [of env sock icmp_id n t i st])
  qed
qed

lemma ping_loop_reports:
  "reports (ping_loop env sock icmp_id n t i st) =
     reports st @ map (round_report env) [i..n - 1]"
proof (induction env sock icmp_id n t i st rule: ping_loop.induct)
  case (1 env sock icmp_id n t i st)
  show ?case
  proof (cases "i < n")
    case True
    then have "[i..n - 1] = i # [i + 1..n - 1]" by (simp add: upto_rec1)
    with True 1 show ?thesis
      by (simp add: ping_loop.simps [of env sock icmp_id n t i st] ping_attempt_reports)
  next
    case False
    then show ?thesis by (simp add: ping_loop.simps [of env sock icmp_id n t i st])
  qed
qed

lemma ping_loop_sockets:
  "open_sockets (calls (ping_loop env sock icmp_id n t i st)) fds = open_sockets (calls st) fds"
proof (induction env sock icmp_id n t i st rule: ping_loop.induct)
  case (1 env sock icmp_id n t i st)
  show ?case
  proof (cases "i < n")
    case True
    with 1 show ?thesis
      by (simp add: ping_loop.simps [of env sock icmp_id n t i st] ping_attempt_sockets)
  next
    case False
    then show ?thesis by (simp add: ping_loop.simps [of env sock icmp_id n t i st])
  qed
qed

lemma replies_bounds: "0 \<le> replies env n" "0 \<le> n \<Longrightarrow> replies env n \<le> n"
proof -
  show "0 \<le> replies env n" by (simp add: replies_def)
  assume "0 \<le> n"
  have "length (filter (got_datagram env) [0..n - 1]) \<le> length [0..n - 1]"
    by (rule length_filter_le)
  then show "replies env n \<le> n" using \<open>0 \<le> n\<close> by (simp add: replies_def)
qed

lemma replies_nonpos: "n \<le> 0 \<Longrightarrow> replies env n = 0"
  by (simp add: replies_def)

lemma ping_received:
  "ping_starts env ip \<Longrightarrow> packets_received (perform_icmp_ping env ip n t) = Some (replies env n)"
  by (simp add: perform_icmp_ping_def ping_starts_def Let_def ping_loop_count replies_def)

lemma ping_sent:
  "ping_starts env ip \<Longrightarrow> packets_sent (perform_icmp_ping env ip n t) = Some n"
  by (simp add: perform_icmp_ping_def ping_starts_def Let_def)

lemma ping_loss:
  "ping_starts env ip \<Longrightarrow> packet_loss (perform_icmp_ping env ip n t) =
     (if 0 < replies env n then Some (Percent_of (n - replies env n) n) else None)"
  by (simp add: perform_icmp_ping_def ping_starts_def Let_def ping_loop_count replies_def)

lemma ping_loss_not_started:
  "\<not> ping_starts env ip \<Longrightarrow> packet_loss (perform_icmp_ping env ip n t) = None"
  by (auto simp add: perform_icmp_ping_def ping_starts_def Let_def ping_failed_def)

lemma ping_reports:
  "ping_starts env ip \<Longrightarrow>
     attempt_reports (perform_icmp_ping env ip n t) = map (round_report env) [0..n - 1]"
  by (simp add: perform_icmp_ping_def ping_starts_def Let_def ping_loop_reports)

lemma upto_nth: "0 \<le> i \<Longrightarrow> i < n \<Longrightarrow> [0..n - 1] ! nat i = i"
  by (simp add: nth_upto)

lemma send_buffer_payload:
  "take 16 (drop 8 (send_buffer icmp_id i tv)) = timeval_bytes tv"
proof -
  have len: "length (timeval_bytes tv) = 16"
    by (simp add: timeval_bytes_def store64_def)
  show ?thesis
    by (simp add: send_buffer_def Let_def store_checksum_def icmp_packet_def store16_def
        drop_update_cancel len)
qed

section \<open>Properties of the scanner loops\<close>

lemma scan_initiate_step:
  "length (sockets (scan_initiate env st i)) = length (sockets st)"
  "scan_lines (scan_initiate env st i) = scan_lines st @ initiate_line env i"
  "open_count (scan_initiate env st i) = open_count st"
  "sockets (scan_initiate env st i) =
     (sockets st)[i := (if pending env i then scan_socket env i else - 1)]"
  "open_sockets (scan_calls (scan_initiate env st i)) fds =
     (if pending env i then [scan_socket env i] else []) @ open_sockets (scan_calls st) fds"
  by (auto simp add: scan_initiate_def Let_def initiate_line_def pending_def open_sockets_append)

lemma initiate_loop:
  "length (sockets (foldl (scan_initiate env) st [0..<n])) = length (sockets st)
   \<and> scan_lines (foldl (scan_initiate env) st [0..<n])
       = scan_lines st @ concat (map (initiate_line env) [0..<n])
   \<and> open_count (foldl (scan_initiate env) st [0..<n]) = open_count st
   \<and> (\<forall>i<n. i < length (sockets st) \<longrightarrow>
         sockets (foldl (scan_initiate env) st [0..<n]) ! i
           = (if pending env i then scan_socket env i else - 1))
   \<and> open_sockets (scan_calls (foldl (scan_initiate env) st [0..<n])) fds
       = rev (pending_fds env n) @ open_sockets (scan_calls st) fds"
proof (induction n)
  case 0
  show ?case by (simp add: pending_fds_def)
next
  case (Suc n)
  then show ?case
    by (auto simp add: scan_initiate_step pending_fds_def nth_list_update less_Suc_eq)
qed

lemma scan_classify_step:
  "sockets (scan_classify env st i) = sockets st"
  "scan_lines (scan_classify env st i) =
     scan_lines st @ (if 0 \<le> sockets st ! i then [classification env i] else [])"
  "mset (open_sockets (scan_calls (scan_classify env st i)) fds) =
     mset (open_sockets (scan_calls st) fds)
       - (if 0 \<le> sockets st ! i then {#sockets st ! i#} else {#})"
  by (auto simp add: scan_classify_def Let_def classification_def open_sockets_append)

lemma classify_loop:
  "sockets (foldl (scan_classify env) st [0..<n]) = sockets st
   \<and> scan_lines (foldl (scan_classify env) st [0..<n])
       = scan_lines st
         @ concat (map (\<lambda>i. if 0 \<le> sockets st ! i then [classification env i] else []) [0..<n])
   \<and> mset (open_sockets (scan_calls (foldl (scan_classify env) st [0..<n])) fds)
       = mset (open_sockets (scan_calls st) fds)
         - mset (map (\<lambda>i. sockets st ! i) (filter (\<lambda>i. 0 \<le> sockets st ! i) [0..<n]))"
proof (induction n)
  case 0
  show ?case by simp
next
  case (Suc n)
  then show ?case
    by (auto simp add: scan_classify_step)
qed

lemma concat_singletons:
  "concat (map (\<lambda>i. if P i then [g i] else []) xs) = map g (filter P xs)"
  by (induction xs) simp_all

lemma scan_result_lines:
  assumes "0 < scan_inet_pton env ip"
  shows "result_lines (scan_services_in_range env ip timeout_sec)
    = concat (map (initiate_line env) [0..<NUM_COMMON_PORTS])
      @ map (classification env) (filter (pending env) [0..<NUM_COMMON_PORTS])"
proof -
  define n where "n = NUM_COMMON_PORTS"
  define st0 where "st0 = \<lparr>sockets = replicate n 0, open_count = 0,
                   scan_lines = [], scan_calls = [Sys_inet_pton ip]\<rparr>"
  define st1 where "st1 = foldl (scan_initiate env) st0 [0..<n]"
  define st2 where "st2 = st1\<lparr>scan_calls := scan_calls st1
     @ [Sys_select (filter (\<lambda>s. 0 \<le> s) (sockets st1)) timeout_sec]\<rparr>"
  define st3 where "st3 = foldl (scan_classify env) st2 [0..<n]"
  have res: "result_lines (scan_services_in_range env ip timeout_sec) = scan_lines st3"
    using assms
    by (simp add: scan_services_in_range_def Let_def st3_def st2_def st1_def st0_def n_def)
  have socks: "\<forall>i<n. sockets st1 ! i = (if pending env i then scan_socket env i else - 1)"
    using initiate_loop [of env st0 n "[]"] by (simp add: st1_def st0_def)
  have lines1: "scan_lines st2 = concat (map (initiate_line env) [0..<n])"
    using initiate_loop [of env st0 n "[]"] by (simp add: st2_def st1_def st0_def)
  have same: "sockets st2 = sockets st1" by (simp add: st2_def)
  have ge: "0 \<le> sockets st2 ! i \<longleftrightarrow> pending env i" if "i < n" for i
    using socks that by (auto simp add: same pending_def)
  have "scan_lines st3 = scan_lines st2
      @ map (classification env) (filter (\<lambda>i. 0 \<le> sockets st2 ! i) [0..<n])"
    using classify_loop [of env st2 n "[]"] by (simp add: st3_def concat_singletons)
  moreover have "filter (\<lambda>i. 0 \<le> sockets st2 ! i) [0..<n] = filter (pending env) [0..<n]"
    by (rule filter_cong) (simp_all add: ge)
  ultimately show ?thesis by (simp add: res lines1 n_def)
qed

lemma initiate_line_cases:
  "initiate_line env i =
     (if pending env i then []
      else [if scan_socket env i < 0 then Socket_creation_failed (svc_port (COMMON_PORTS ! i))
            else Connection_error (svc_port (COMMON_PORTS ! i)) (svc_name (COMMON_PORTS ! i))])"
  by (auto simp add: initiate_line_def pending_def)

lemma line_port_classification: "line_port (classification env i) = svc_port (COMMON_PORTS ! i)"
  by (simp add: classification_def)

lemma is_classification_classification: "is_classification (classification env i)"
  by (simp add: classification_def)

lemma lines_ports:
  "mset (map line_port (concat (map (initiate_line env) xs)
           @ map (classification env) (filter (pending env) xs)))
     = mset (map (\<lambda>i. svc_port (COMMON_PORTS ! i)) xs)"
  by (induction xs) (simp_all add: initiate_line_cases line_port_classification)

lemma lines_classified:
  "filter is_classification (concat (map (initiate_line env) xs)
           @ map (classification env) (filter (pending env) ys))
     = map (classification env) (filter (pending env) ys)"
proof -
  have "filter is_classification (concat (map (initiate_line env) xs)) = []"
    by (induction xs) (simp_all add: initiate_line_cases)
  moreover have "filter is_classification (map (classification env) zs)
      = map (classification env) zs" for zs
    by (induction zs) (simp_all add: is_classification_classification)
  ultimately show ?thesis by simp
qed

lemma scan_sockets_closed:
  "open_sockets (result_calls (scan_services_in_range env ip timeout_sec)) [] = []"
proof (cases "scan_inet_pton env ip \<le> 0")
  case True
  then show ?thesis by (simp add: scan_services_in_range_def)
next
  case False
  define n where "n = NUM_COMMON_PORTS"
  define st0 where "st0 = \<lparr>sockets = replicate n 0, open_count = 0,
                   scan_lines = [], scan_calls = [Sys_inet_pton ip]\<rparr>"
  define st1 where "st1 = foldl (scan_initiate env) st0 [0..<n]"
  define st2 where "st2 = st1\<lparr>scan_calls := scan_calls st1
     @ [Sys_select (filter (\<lambda>s. 0 \<le> s) (sockets st1)) timeout_sec]\<rparr>"
  define st3 where "st3 = foldl (scan_classify env) st2 [0..<n]"
  have res: "result_calls (scan_services_in_range env ip timeout_sec) = scan_calls st3"
    using False
    by (simp add: scan_services_in_range_def Let_def st3_def st2_def st1_def st0_def n_def)
  have socks: "\<forall>i<n. sockets st1 ! i = (if pending env i then scan_socket env i else - 1)"
    using initiate_loop [of env st0 n "[]"] by (simp add: st1_def st0_def)
  have open1: "open_sockets (scan_calls st1) [] = rev (pending_fds env n)"
    using initiate_loop [of env st0 n "[]"] by (simp add: st1_def st0_def)
  then have open2: "open_sockets (scan_calls st2) [] = rev (pending_fds env n)"
    by (simp add: st2_def open_sockets_append)
  have same: "sockets st2 = sockets st1" by (simp add: st2_def)
  have ge: "0 \<le> sockets st2 ! i \<longleftrightarrow> pending env i" if "i < n" for i
    using socks that by (auto simp add: same pending_def)
  have "map (\<lambda>i. sockets st2 ! i) (filter (\<lambda>i. 0 \<le> sockets st2 ! i) [0..<n])
        = map (scan_socket env) (filter (pending env) [0..<n])"
  proof -
    have "filter (\<lambda>i. 0 \<le> sockets st2 ! i) [0..<n] = filter (pending env) [0..<n]"
      by (rule filter_cong) (simp_all add: ge)
    moreover have "map (\<lambda>i. sockets st2 ! i) (filter (pending env) [0..<n])
        = map (scan_socket env) (filter (pending env) [0..<n])"
      by (rule map_cong) (use socks in \<open>auto simp add: same\<close>)
    ultimately show ?thesis by simp
  qed
  then have "mset (open_sockets (scan_calls st3) []) = mset (rev (pending_fds env n)) - mset (pending_fds env n)"
    using classify_loop [of env st2 n "[]"] by (simp add: st3_def open2 pending_fds_def)
  then have "mset (open_sockets (scan_calls st3) []) = {#}" by simp
  then show ?thesis by (simp add: res)
qed

section \<open>Claims\<close>

text \<open>
  C4, as stated: the catalog lists Redis/6379, RDP/3389, MongoDB/27017 last, in this
  order. The source declares MongoDB before RDP, so the stated order is not the
  catalog's order.
\<close>

theorem catalog_order_counterexample:
  "catalog_pairs \<noteq>
     [(''SSH'', 22), (''Telnet'', 23), (''SMTP'', 25), (''DNS'', 53), (''HTTP'', 80),
      (''POP3'', 110), (''IMAP'', 143), (''HTTPS'', 443), (''MySQL'', 3306),
      (''PostgreSQL'', 5432), (''Redis'', 6379), (''RDP'', 3389), (''MongoDB'', 27017)]"
  by (simp add: catalog_pairs_def COMMON_PORTS_def)

text \<open>
  C4, amended: the port catalog is a fixed, ordered list of exactly 13 (name, port)
  entries with pairwise different ports, in this order: SSH/22, Telnet/23, SMTP/25,
  DNS/53, HTTP/80, POP3/110, IMAP/143, HTTPS/443, MySQL/3306, PostgreSQL/5432,
  Redis/6379, MongoDB/27017, RDP/3389.
\<close>

theorem catalog_contents:
  "NUM_COMMON_PORTS = 13
   \<and> catalog_pairs =
     [(''SSH'', 22), (''Telnet'', 23), (''SMTP'', 25), (''DNS'', 53), (''HTTP'', 80),
      (''POP3'', 110), (''IMAP'', 143), (''HTTPS'', 443), (''MySQL'', 3306),
      (''PostgreSQL'', 5432), (''Redis'', 6379), (''MongoDB'', 27017), (''RDP'', 3389)]
   \<and> distinct (map svc_port COMMON_PORTS)"
  by (simp add: NUM_COMMON_PORTS_def catalog_pairs_def COMMON_PORTS_def)

text \<open>
  C7: for every buffer that has a checksum field (at least four bytes) and holds zero
  in it, computing the checksum and writing it into bytes 2 and 3 gives a buffer whose
  checksum is zero. The 32-bit accumulator may wrap around for long buffers; the law
  holds all the same.
\<close>

theorem checksum_self_verifies:
  assumes "4 \<le> length buf" and "buf ! 2 = 0" and "buf ! 3 = 0"
  shows "calculate_icmp_checksum (store_checksum buf (calculate_icmp_checksum buf)) = 0"
proof -
  define r where "r = sum_words buf 0"
  define f where "f = fold_carry r"
  define c where "c = calculate_icmp_checksum buf"
  have flt: "unat f < 65536" unfolding f_def by (rule fold_carry_lt)
  have c_val: "unat c = 65535 - unat f"
    using flt by (simp add: c_def calculate_icmp_checksum_def r_def f_def unat_not16)
  have ar: "unat r + (65535 - unat f) < 4294967296
      \<and> (unat r + (65535 - unat f)) mod 65535 = 0 \<and> unat r + (65535 - unat f) \<noteq> 0"
  proof (rule checksum_arith)
    show "unat r < 4294967296" by (rule unat_lt32)
    show "unat f < 65536" by (rule flt)
    show "unat f mod 65535 = unat r mod 65535" unfolding f_def by (rule fold_carry_mod)
    show "unat f = 0 \<longleftrightarrow> unat r = 0"
      using fold_carry_zero [of r] by (simp add: f_def unsigned_eq_0_iff)
  qed
  define r' where "r' = sum_words (store_checksum buf c) 0"
  have "r' = r + ucast c"
    unfolding r'_def r_def using assms by (rule sum_words_store)
  then have r'_val: "unat r' = unat r + (65535 - unat f)"
    using ar by (simp add: unat_word_ariths unat_ucast_16_32 c_val)
  define f' where "f' = fold_carry r'"
  have "unat f' < 65536" unfolding f'_def by (rule fold_carry_lt)
  moreover have "unat f' mod 65535 = 0"
    using fold_carry_mod [of r'] ar by (simp add: f'_def r'_val)
  moreover have "unat f' \<noteq> 0"
    using fold_carry_zero [of r'] ar by (simp add: f'_def unsigned_eq_0_iff r'_val [symmetric])
  ultimately have "unat f' = 65535" by (rule multiple_in_range)
  then have "unat (ucast (NOT f') :: 16 word) = 0"
    by (simp add: unat_not16)
  then have "(ucast (NOT f') :: 16 word) = 0" by (simp add: unsigned_eq_0_iff)
  then show ?thesis
    by (simp add: calculate_icmp_checksum_def f'_def r'_def c_def)
qed

text \<open>The law at the echo request the probe builds for its first round.\<close>

theorem checksum_self_verifies_witness:
  "4 \<le> length (icmp_packet 0x1234 0 \<lparr>tv_sec = 100, tv_usec = 0\<rparr>)
   \<and> icmp_packet 0x1234 0 \<lparr>tv_sec = 100, tv_usec = 0\<rparr> ! 2 = 0
   \<and> icmp_packet 0x1234 0 \<lparr>tv_sec = 100, tv_usec = 0\<rparr> ! 3 = 0
   \<and> calculate_icmp_checksum
        (store_checksum (icmp_packet 0x1234 0 \<lparr>tv_sec = 100, tv_usec = 0\<rparr>)
           (calculate_icmp_checksum (icmp_packet 0x1234 0 \<lparr>tv_sec = 100, tv_usec = 0\<rparr>))) = 0"
proof -
  have a: "4 \<le> length (icmp_packet 0x1234 0 \<lparr>tv_sec = 100, tv_usec = 0\<rparr>)"
    by (simp add: icmp_packet_def store16_def timeval_bytes_def store64_def)
  have b: "icmp_packet 0x1234 0 \<lparr>tv_sec = 100, tv_usec = 0\<rparr> ! 2 = 0"
    by (simp add: icmp_packet_def store16_def)
  have c: "icmp_packet 0x1234 0 \<lparr>tv_sec = 100, tv_usec = 0\<rparr> ! 3 = 0"
    by (simp add: icmp_packet_def store16_def)
  show ?thesis using a b c checksum_self_verifies [OF a b c] by simp
qed

text \<open>
  C9: for two timestamps with microsecond fields in \<open>[0, 999999]\<close>, the end not earlier
  than the start, the elapsed-milliseconds value is not negative; hence the latency of
  every TCP probe that reports Open is not negative when its two clock readings are
  such a pair. \<open>span_fits\<close> keeps the \<open>long\<close> arithmetic free of overflow; it holds for
  any two clock readings less than 292 million years apart.
\<close>

theorem elapsed_ms_nonneg:
  assumes "valid_usec s" and "valid_usec e" and "not_earlier s e" and "span_fits s e"
  shows "0 \<le> sint (calculate_elapsed_ms s e)
    \<and> (\<forall>env ip port timeout_sec rtt.
          tcp_start_time env = s \<and> tcp_end_time env = e
          \<and> tcp_outcome (check_tcp_connectivity env ip port timeout_sec) = Open rtt
          \<longrightarrow> 0 \<le> sint rtt)"
proof -
  define d where "d = sint (tv_sec e) - sint (tv_sec s)"
  define u where "u = sint (tv_usec e) - sint (tv_usec s)"
  have us: "0 \<le> sint (tv_usec s)" "sint (tv_usec s) \<le> 999999"
    and ue: "0 \<le> sint (tv_usec e)" "sint (tv_usec e) \<le> 999999"
    using assms(1,2) by (simp_all add: valid_usec_def)
  have d: "0 \<le> d" "d < 9223372036854775"
    using assms(3,4) by (auto simp add: not_earlier_def span_fits_def d_def)
  have val: "sint (calculate_elapsed_ms s e) = d * 1000 + u sdiv 1000"
    unfolding d_def u_def using us ue d by (intro elapsed_ms_value) (simp_all add: d_def)
  have u: "- 999999 \<le> u" "u \<le> 999999" using us ue by (simp_all add: u_def)
  have nonneg: "0 \<le> d * 1000 + u sdiv 1000"
  proof (cases "d = 0")
    case True
    then have "0 \<le> u" using assms(3) by (auto simp add: not_earlier_def d_def u_def)
    then have "0 \<le> u sdiv 1000" using sdiv_1000_bounds(3) [OF u] by simp
    with True show ?thesis by simp
  next
    case False
    then have "1 \<le> d" using d by simp
    moreover have "- 999 \<le> u sdiv 1000" using sdiv_1000_bounds(1) [OF u] .
    ultimately show ?thesis by linarith
  qed
  have first: "0 \<le> sint (calculate_elapsed_ms s e)" using val nonneg by simp
  have "0 \<le> sint rtt"
    if "tcp_start_time env = s" "tcp_end_time env = e"
      "tcp_outcome (check_tcp_connectivity env ip port timeout_sec) = Open rtt"
    for env ip port timeout_sec rtt
  proof -
    have "rtt = calculate_elapsed_ms s e"
      using that by (simp add: check_tcp_connectivity_def Let_def split: if_splits)
    with first show ?thesis by simp
  qed
  with first show ?thesis by blast
qed

text \<open>A probe that starts at 100.999999 s and ends at 101.000000 s reports 1 ms.\<close>

theorem elapsed_ms_nonneg_witness:
  "valid_usec (tcp_start_time tcp_env_open) \<and> valid_usec (tcp_end_time tcp_env_open)
   \<and> not_earlier (tcp_start_time tcp_env_open) (tcp_end_time tcp_env_open)
   \<and> span_fits (tcp_start_time tcp_env_open) (tcp_end_time tcp_env_open)
   \<and> tcp_outcome (check_tcp_connectivity tcp_env_open ''127.0.0.1'' 8080 3) = Open 1
   \<and> 0 \<le> sint (calculate_elapsed_ms (tcp_start_time tcp_env_open) (tcp_end_time tcp_env_open))
   \<and> 0 \<le> sint (1 :: long)"
proof -
  have a: "valid_usec (tcp_start_time tcp_env_open)" "valid_usec (tcp_end_time tcp_env_open)"
    by (simp_all add: tcp_env_open_def valid_usec_def)
  have b: "not_earlier (tcp_start_time tcp_env_open) (tcp_end_time tcp_env_open)"
    by (simp add: tcp_env_open_def not_earlier_def)
  have c: "span_fits (tcp_start_time tcp_env_open) (tcp_end_time tcp_env_open)"
    by (simp add: tcp_env_open_def span_fits_def)
  have d: "tcp_outcome (check_tcp_connectivity tcp_env_open ''127.0.0.1'' 8080 3) = Open 1"
    by (simp add: check_tcp_connectivity_def tcp_env_open_def EINPROGRESS_def Let_def
        calculate_elapsed_ms_def sdiv64_def)
  from elapsed_ms_nonneg [OF a b c] a b c d show ?thesis by simp
qed

text \<open>
  C6: the TCP probe classifies its outcome as follows. A port outside \<open>[1, 65535]\<close> is
  rejected at once, before any socket exists or any network call is made (only the
  clock has been read). Once the probe reaches the readiness wait: if \<open>select\<close> returns
  no ready descriptor the outcome is Timeout (failure); if it returns readiness and the
  pending socket error is zero the outcome is Open (success), with the latency measured
  from the clock reading at entry to the one after the wait; if the pending error is
  not zero the outcome is Closed with that error (failure). The function returns
  success exactly in the Open case.
\<close>

theorem tcp_outcome_classification:
  "((port < 1 \<or> 65535 < port) \<longrightarrow>
      tcp_outcome (check_tcp_connectivity env ip port timeout_sec) = Invalid_port
      \<and> tcp_ret (check_tcp_connectivity env ip port timeout_sec) = 0
      \<and> filter is_network_call (tcp_calls (check_tcp_connectivity env ip port timeout_sec)) = [])
   \<and> (tcp_reaches_wait env ip port \<and> tcp_select env \<le> 0 \<longrightarrow>
      tcp_outcome (check_tcp_connectivity env ip port timeout_sec) = Timeout
      \<and> tcp_ret (check_tcp_connectivity env ip port timeout_sec) = 0)
   \<and> (tcp_reaches_wait env ip port \<and> 0 < tcp_select env \<and> tcp_so_error env = 0 \<longrightarrow>
      tcp_outcome (check_tcp_connectivity env ip port timeout_sec)
        = Open (calculate_elapsed_ms (tcp_start_time env) (tcp_end_time env))
      \<and> tcp_ret (check_tcp_connectivity env ip port timeout_sec) = 1)
   \<and> (tcp_reaches_wait env ip port \<and> 0 < tcp_select env \<and> tcp_so_error env \<noteq> 0 \<longrightarrow>
      tcp_outcome (check_tcp_connectivity env ip port timeout_sec) = Closed (tcp_so_error env)
      \<and> tcp_ret (check_tcp_connectivity env ip port timeout_sec) = 0)
   \<and> (tcp_ret (check_tcp_connectivity env ip port timeout_sec) = 1 \<longleftrightarrow>
      (\<exists>rtt. tcp_outcome (check_tcp_connectivity env ip port timeout_sec) = Open rtt))
   \<and> (tcp_ret (check_tcp_connectivity env ip port timeout_sec) = 1 \<longleftrightarrow>
      tcp_reaches_wait env ip port \<and> 0 < tcp_select env \<and> tcp_so_error env = 0)"
  by (auto simp add: check_tcp_connectivity_def tcp_reaches_wait_def Let_def)

text \<open>
  Port 0; a host that does not answer; a listening port; a port that refuses the
  connection.
\<close>

theorem tcp_outcome_classification_witness:
  "((0 :: int) < 1 \<or> 65535 < (0 :: int))
   \<and> tcp_outcome (check_tcp_connectivity tcp_env_open ''127.0.0.1'' 0 3) = Invalid_port
   \<and> tcp_calls (check_tcp_connectivity tcp_env_open ''127.0.0.1'' 0 3) = [Sys_gettimeofday]
   \<and> tcp_reaches_wait tcp_env_timeout ''198.51.100.1'' 80 \<and> tcp_select tcp_env_timeout \<le> 0
   \<and> tcp_outcome (check_tcp_connectivity tcp_env_timeout ''198.51.100.1'' 80 3) = Timeout
   \<and> tcp_ret (check_tcp_connectivity tcp_env_timeout ''198.51.100.1'' 80 3) = 0
   \<and> tcp_reaches_wait tcp_env_open ''127.0.0.1'' 8080 \<and> 0 < tcp_select tcp_env_open
   \<and> tcp_so_error tcp_env_open = 0
   \<and> tcp_outcome (check_tcp_connectivity tcp_env_open ''127.0.0.1'' 8080 3) = Open 1
   \<and> tcp_ret (check_tcp_connectivity tcp_env_open ''127.0.0.1'' 8080 3) = 1
   \<and> tcp_reaches_wait tcp_env_refused ''127.0.0.1'' 81 \<and> 0 < tcp_select tcp_env_refused
   \<and> tcp_so_error tcp_env_refused \<noteq> 0
   \<and> tcp_outcome (check_tcp_connectivity tcp_env_refused ''127.0.0.1'' 81 3) = Closed 111
   \<and> tcp_ret (check_tcp_connectivity tcp_env_refused ''127.0.0.1'' 81 3) = 0"
proof -
  have e: "calculate_elapsed_ms (tcp_start_time tcp_env_open) (tcp_end_time tcp_env_open) = 1"
    by (simp add: tcp_env_open_def calculate_elapsed_ms_def sdiv64_def)
  have a: "tcp_reaches_wait tcp_env_timeout ''198.51.100.1'' 80" "tcp_select tcp_env_timeout \<le> 0"
    by (simp_all add: tcp_reaches_wait_def tcp_env_timeout_def tcp_env_open_def EINPROGRESS_def)
  have b: "tcp_reaches_wait tcp_env_open ''127.0.0.1'' 8080" "0 < tcp_select tcp_env_open"
    "tcp_so_error tcp_env_open = 0"
    by (simp_all add: tcp_reaches_wait_def tcp_env_open_def EINPROGRESS_def)
  have c: "tcp_reaches_wait tcp_env_refused ''127.0.0.1'' 81" "0 < tcp_select tcp_env_refused"
    "tcp_so_error tcp_env_refused \<noteq> 0" "tcp_so_error tcp_env_refused = 111"
    by (simp_all add: tcp_reaches_wait_def tcp_env_refused_def tcp_env_open_def EINPROGRESS_def)
  have d: "tcp_calls (check_tcp_connectivity tcp_env_open ''127.0.0.1'' 0 3) = [Sys_gettimeofday]"
    by (simp add: check_tcp_connectivity_def)
  show ?thesis
    using tcp_outcome_classification [of 0 tcp_env_open "''127.0.0.1''" 3]
      tcp_outcome_classification [of 80 tcp_env_timeout "''198.51.100.1''" 3]
      tcp_outcome_classification [of 8080 tcp_env_open "''127.0.0.1''" 3]
      tcp_outcome_classification [of 81 tcp_env_refused "''127.0.0.1''" 3]
      a b c d e
    by simp
qed

text \<open>
  C8: in the TCP probe, the ICMP probe and the scanner, no socket descriptor is left
  open when the operation returns, whatever the kernel answered on the way: every
  socket that was created has been closed, on every exit path.
\<close>

theorem sockets_released:
  "open_sockets (tcp_calls (check_tcp_connectivity tenv ip port timeout_sec)) [] = []
   \<and> open_sockets (ping_calls (perform_icmp_ping penv ip packet_count timeout_sec)) [] = []
   \<and> open_sockets (result_calls (scan_services_in_range senv ip timeout_sec)) [] = []"
proof -
  have "open_sockets (tcp_calls (check_tcp_connectivity tenv ip port timeout_sec)) [] = []"
    by (simp add: check_tcp_connectivity_def Let_def)
  moreover have "open_sockets (ping_calls (perform_icmp_ping penv ip packet_count timeout_sec)) [] = []"
    by (simp add: perform_icmp_ping_def ping_failed_def Let_def open_sockets_append ping_loop_sockets)
  ultimately show ?thesis by (simp add: scan_sockets_closed)
qed

text \<open>
  C1, as stated: the reported latency of an answered attempt is the receive time minus
  the send timestamp carried in the reply's payload. When the echo of round 0 arrives
  during round 1, the payload carries the send time of round 0 (100 s), which would
  give 2500 ms; the probe reports 500 ms, measured from its own send time of round 1.
\<close>

theorem late_reply_counterexample:
  "attempt_reports (perform_icmp_ping ping_env_late ''10.0.0.1'' 2 2) = [No_reply, Echo_reply 500]
   \<and> reply_timestamp (att_recv_buffer (icmp_attempts ping_env_late 1))
       = Some \<lparr>tv_sec = 100, tv_usec = 0\<rparr>
   \<and> calculate_elapsed_ms \<lparr>tv_sec = 100, tv_usec = 0\<rparr>
        (att_recv_time (icmp_attempts ping_env_late 1)) = 2500"
  by code_simp

text \<open>
  C1, amended: for every attempt during which a datagram arrives before the timeout,
  the reported latency is the receive time minus the send time the probe itself read
  for that attempt, which is the value it copied into the payload of that attempt's
  request; the received datagram is not consulted.
\<close>

theorem latency_from_own_send_time:
  assumes "ping_starts env ip" and "0 \<le> i" and "i < packet_count" and "got_datagram env i"
  shows "attempt_reports (perform_icmp_ping env ip packet_count timeout_sec) ! nat i
           = Echo_reply (calculate_elapsed_ms (att_send_time (icmp_attempts env i))
               (att_recv_time (icmp_attempts env i)))
    \<and> take 16 (drop 8 (send_buffer icmp_id i (att_send_time (icmp_attempts env i))))
         = timeval_bytes (att_send_time (icmp_attempts env i))"
proof -
  have "nat i < length [0..packet_count - 1]" using assms(2,3) by simp
  then have "attempt_reports (perform_icmp_ping env ip packet_count timeout_sec) ! nat i
      = round_report env ([0..packet_count - 1] ! nat i)"
    using assms(1) by (simp add: ping_reports)
  also have "\<dots> = round_report env i"
    using assms(2,3) by (simp add: upto_nth)
  also have "\<dots> = Echo_reply (calculate_elapsed_ms (att_send_time (icmp_attempts env i))
               (att_recv_time (icmp_attempts env i)))"
    using assms(4) by (simp add: round_report_def got_datagram_def Let_def)
  finally show ?thesis by (simp add: send_buffer_payload)
qed

text \<open>The second round against a host that answers every request within 20 ms.\<close>

theorem latency_from_own_send_time_witness:
  "ping_starts ping_env_echo ''10.0.0.1'' \<and> (0 :: int) \<le> 1 \<and> (1 :: int) < 2
   \<and> got_datagram ping_env_echo 1
   \<and> attempt_reports (perform_icmp_ping ping_env_echo ''10.0.0.1'' 2 2) ! nat 1
       = Echo_reply 20"
proof -
  have a: "ping_starts ping_env_echo ''10.0.0.1''" by code_simp
  have b: "(0 :: int) \<le> 1" "(1 :: int) < 2" by simp_all
  have c: "got_datagram ping_env_echo 1" by code_simp
  have d: "calculate_elapsed_ms (att_send_time (icmp_attempts ping_env_echo 1))
               (att_recv_time (icmp_attempts ping_env_echo 1)) = 20"
    by code_simp
  show ?thesis
    using latency_from_own_send_time [OF a b c, of 2 0] a b c d by simp
qed

text \<open>
  C2, as stated: a received packet counts as the reply to an attempt only if its
  identifier and sequence number are those of the attempt's request. The probe with
  identifier \<open>0x1234\<close> counts, in round 0, a datagram with identifier \<open>0xBEEF\<close> and
  sequence number 9.
\<close>

theorem stray_reply_counterexample:
  "packets_received (perform_icmp_ping ping_env_stray ''10.0.0.1'' 1 2) = Some 1
   \<and> attempt_reports (perform_icmp_ping ping_env_stray ''10.0.0.1'' 1 2) = [Echo_reply 30]
   \<and> (word_of_int (icmp_getpid ping_env_stray) :: 16 word) = 0x1234
   \<and> reply_ident (att_recv_buffer (icmp_attempts ping_env_stray 0)) = Some 0xBEEF
   \<and> reply_seq (att_recv_buffer (icmp_attempts ping_env_stray 0)) = Some 9"
  by code_simp

text \<open>
  C2, amended: a datagram that \<open>recvfrom\<close> delivers during an attempt, after the request
  was sent, is counted as that attempt's reply, whatever identifier and sequence number
  it carries: the received count is the number of attempts that got a datagram, and an
  attempt is reported as answered exactly when it got one.
\<close>

theorem every_datagram_counted:
  assumes "ping_starts env ip"
  shows "packets_received (perform_icmp_ping env ip packet_count timeout_sec)
           = Some (replies env packet_count)
    \<and> (\<forall>i. 0 \<le> i \<and> i < packet_count \<longrightarrow>
          (got_datagram env i \<longleftrightarrow>
             (\<exists>rtt. attempt_reports (perform_icmp_ping env ip packet_count timeout_sec) ! nat i
                = Echo_reply rtt)))"
proof -
  have "got_datagram env i \<longleftrightarrow>
     (\<exists>rtt. attempt_reports (perform_icmp_ping env ip packet_count timeout_sec) ! nat i
       = Echo_reply rtt)"
    if "0 \<le> i" "i < packet_count" for i
  proof -
    have "nat i < length [0..packet_count - 1]" using that by simp
    then have "attempt_reports (perform_icmp_ping env ip packet_count timeout_sec) ! nat i
        = round_report env ([0..packet_count - 1] ! nat i)"
      using assms by (simp add: ping_reports)
    also have "\<dots> = round_report env i" using that by (simp add: upto_nth)
    finally show ?thesis
      by (auto simp add: round_report_def got_datagram_def Let_def)
  qed
  then show ?thesis using assms by (simp add: ping_received)
qed

text \<open>Two rounds; the first receives another process's echo, the second nothing.\<close>

theorem every_datagram_counted_witness:
  "ping_starts ping_env_stray ''10.0.0.1''
   \<and> packets_received (perform_icmp_ping ping_env_stray ''10.0.0.1'' 2 2) = Some 1
   \<and> replies ping_env_stray 2 = 1"
proof -
  have a: "ping_starts ping_env_stray ''10.0.0.1''" by code_simp
  have b: "replies ping_env_stray 2 = 1" by code_simp
  show ?thesis using every_datagram_counted [OF a, of 2 2] a b by simp
qed

text \<open>
  C3, as stated: every run reports a loss percentage equal to
  \<open>(sent - received) / sent * 100\<close>, so that 3 packets with 0 replies report 100.0.
  Such a run reports sent 3 and received 0, and no loss percentage at all.
\<close>

theorem silent_host_counterexample:
  "packets_sent (perform_icmp_ping ping_env_silent ''198.51.100.1'' 3 2) = Some 3
   \<and> packets_received (perform_icmp_ping ping_env_silent ''198.51.100.1'' 3 2) = Some 0
   \<and> packet_loss (perform_icmp_ping ping_env_silent ''198.51.100.1'' 3 2) = None
   \<and> ping_ret (perform_icmp_ping ping_env_silent ''198.51.100.1'' 3 2) = 0"
  by code_simp

text \<open>
  C3, amended: for every run of the ICMP probe that gets past socket creation and
  address parsing, with a packet count \<open>N \<ge> 0\<close>: the reported sent count is \<open>N\<close>, the
  received count is at least 0 and at most \<open>N\<close>, and a loss percentage is reported only
  when at least one reply was received; it is then the value of
  \<open>((float)(sent - received) / sent) * 100\<close>.
\<close>

theorem ping_statistics:
  assumes "ping_starts env ip" and "0 \<le> packet_count"
  shows "packets_sent (perform_icmp_ping env ip packet_count timeout_sec) = Some packet_count
    \<and> packets_received (perform_icmp_ping env ip packet_count timeout_sec)
        = Some (replies env packet_count)
    \<and> 0 \<le> replies env packet_count \<and> replies env packet_count \<le> packet_count
    \<and> packet_loss (perform_icmp_ping env ip packet_count timeout_sec)
        = (if 0 < replies env packet_count
           then Some (Percent_of (packet_count - replies env packet_count) packet_count)
           else None)"
  using assms by (simp add: ping_sent ping_received ping_loss replies_bounds)

text \<open>Three rounds with one datagram received.\<close>

theorem ping_statistics_witness:
  "ping_starts ping_env_stray ''10.0.0.1'' \<and> (0 :: int) \<le> 3
   \<and> packets_sent (perform_icmp_ping ping_env_stray ''10.0.0.1'' 3 2) = Some 3
   \<and> packets_received (perform_icmp_ping ping_env_stray ''10.0.0.1'' 3 2) = Some 1
   \<and> packet_loss (perform_icmp_ping ping_env_stray ''10.0.0.1'' 3 2) = Some (Percent_of 2 3)"
proof -
  have a: "ping_starts ping_env_stray ''10.0.0.1''" by code_simp
  have b: "(0 :: int) \<le> 3" by simp
  have c: "replies ping_env_stray 3 = 1" by code_simp
  show ?thesis using ping_statistics [OF a b, of 2] a c by simp
qed

text \<open>
  C10: whenever the ICMP probe computes the loss percentage, its divisor is the packet
  count and is at least 1, and at least one reply was received; with a packet count of
  zero or less the division is not executed.
\<close>

theorem loss_division_guarded:
  "(\<forall>a b. packet_loss (perform_icmp_ping env ip packet_count timeout_sec)
            = Some (Percent_of a b) \<longrightarrow>
       b = packet_count \<and> 1 \<le> b
       \<and> (\<exists>k. packets_received (perform_icmp_ping env ip packet_count timeout_sec) = Some k
              \<and> 1 \<le> k))
   \<and> (packet_count \<le> 0 \<longrightarrow>
        packet_loss (perform_icmp_ping env ip packet_count timeout_sec) = None)"
proof (cases "ping_starts env ip")
  case True
  have "1 \<le> packet_count" if "0 < replies env packet_count"
  proof (rule ccontr)
    assume "\<not> 1 \<le> packet_count"
    then have "replies env packet_count = 0" by (simp add: replies_nonpos)
    with that show False by simp
  qed
  moreover have "replies env packet_count = 0" if "packet_count \<le> 0"
    using that by (simp add: replies_nonpos)
  ultimately show ?thesis
    using True by (auto simp add: ping_loss ping_received split: if_splits)
next
  case False
  then show ?thesis by (simp add: ping_loss_not_started)
qed

text \<open>One round that is answered; and a run of zero rounds.\<close>

theorem loss_division_guarded_witness:
  "packet_loss (perform_icmp_ping ping_env_echo ''10.0.0.1'' 1 2) = Some (Percent_of 0 1)
   \<and> (1 :: int) \<le> 1
   \<and> packets_received (perform_icmp_ping ping_env_echo ''10.0.0.1'' 1 2) = Some 1
   \<and> (0 :: int) \<le> 0
   \<and> packet_loss (perform_icmp_ping ping_env_echo ''10.0.0.1'' 0 2) = None"
proof -
  have a: "packet_loss (perform_icmp_ping ping_env_echo ''10.0.0.1'' 1 2) = Some (Percent_of 0 1)"
    by code_simp
  have b: "packets_received (perform_icmp_ping ping_env_echo ''10.0.0.1'' 1 2) = Some 1"
    by code_simp
  show ?thesis
    using loss_division_guarded [of ping_env_echo "''10.0.0.1''" 1 2]
      loss_division_guarded [of ping_env_echo "''10.0.0.1''" 0 2] a b
    by simp
qed

text \<open>
  C5, as stated: a scan of a valid address yields one Open or Closed/Filtered
  classification for each of the 13 entries. When the socket for entry 0 cannot be
  created, SSH/22 gets a ``socket creation failed'' line and no classification; only 12
  entries are classified.
\<close>

theorem failed_socket_counterexample:
  "0 < scan_inet_pton scan_env_no_socket ''10.0.0.1''
   \<and> result_lines (scan_services_in_range scan_env_no_socket ''10.0.0.1'' 3)
     = [Socket_creation_failed 22,
        Port_closed_filtered 23 ''Telnet'', Port_closed_filtered 25 ''SMTP'',
        Port_closed_filtered 53 ''DNS'', Port_open 80 ''HTTP'',
        Port_closed_filtered 110 ''POP3'', Port_closed_filtered 143 ''IMAP'',
        Port_closed_filtered 443 ''HTTPS'', Port_closed_filtered 3306 ''MySQL'',
        Port_closed_filtered 5432 ''PostgreSQL'', Port_closed_filtered 6379 ''Redis'',
        Port_closed_filtered 27017 ''MongoDB'', Port_closed_filtered 3389 ''RDP'']
   \<and> length (filter is_classification
        (result_lines (scan_services_in_range scan_env_no_socket ''10.0.0.1'' 3))) = 12"
  by code_simp

text \<open>
  C5, amended: a scan of a valid address prints exactly one line for each of the 13
  catalog entries. The entries whose socket was created and whose connection attempt
  did not fail at once are classified Open or Closed/Filtered, once each and in catalog
  order; every other entry gets its ``socket creation failed'' or ``connection error''
  line instead, and no classification.
\<close>

theorem scan_reports_each_entry_once:
  assumes "0 < scan_inet_pton env ip"
  shows "mset (map line_port (result_lines (scan_services_in_range env ip timeout_sec)))
           = mset (map svc_port COMMON_PORTS)
    \<and> length (result_lines (scan_services_in_range env ip timeout_sec)) = 13
    \<and> filter is_classification (result_lines (scan_services_in_range env ip timeout_sec))
        = map (classification env) (filter (pending env) [0..<NUM_COMMON_PORTS])
    \<and> filter (\<lambda>l. \<not> is_classification l)
          (result_lines (scan_services_in_range env ip timeout_sec))
        = concat (map (initiate_line env) [0..<NUM_COMMON_PORTS])"
proof -
  let ?ls = "result_lines (scan_services_in_range env ip timeout_sec)"
  have eq: "?ls = concat (map (initiate_line env) [0..<NUM_COMMON_PORTS])
      @ map (classification env) (filter (pending env) [0..<NUM_COMMON_PORTS])"
    using assms by (rule scan_result_lines)
  have "map (\<lambda>i. svc_port (COMMON_PORTS ! i)) [0..<NUM_COMMON_PORTS] = map svc_port COMMON_PORTS"
    unfolding NUM_COMMON_PORTS_def by (simp only: map_map [symmetric, unfolded comp_def] map_nth)
  then have ports: "mset (map line_port ?ls) = mset (map svc_port COMMON_PORTS)"
    by (simp only: eq lines_ports)
  then have "size (mset (map line_port ?ls)) = size (mset (map svc_port COMMON_PORTS))"
    by simp
  then have len: "length ?ls = 13" by (simp add: COMMON_PORTS_def)
  have cls: "filter is_classification ?ls
      = map (classification env) (filter (pending env) [0..<NUM_COMMON_PORTS])"
    by (simp only: eq lines_classified)
  have "filter (\<lambda>l. \<not> is_classification l) (concat (map (initiate_line env) xs)) 
       = concat (map (initiate_line env) xs)" for xs
    by (induction xs) (simp_all add: initiate_line_cases)
  moreover have "filter (\<lambda>l. \<not> is_classification l) (map (classification env) zs) = []" for zs
    by (induction zs) (simp_all add: is_classification_classification)
  ultimately have "filter (\<lambda>l. \<not> is_classification l) ?ls
      = concat (map (initiate_line env) [0..<NUM_COMMON_PORTS])"
    by (simp add: eq)
  with ports len cls show ?thesis by simp
qed

text \<open>The scan of a host on which all 13 connection attempts are pending.\<close>

theorem scan_reports_each_entry_once_witness:
  "0 < scan_inet_pton scan_env_web ''10.0.0.1''
   \<and> length (result_lines (scan_services_in_range scan_env_web ''10.0.0.1'' 3)) = 13
   \<and> filter is_classification (result_lines (scan_services_in_range scan_env_web ''10.0.0.1'' 3))
     = map (classification scan_env_web) (filter (pending scan_env_web) [0..<NUM_COMMON_PORTS])"
proof -
  have a: "0 < scan_inet_pton scan_env_web ''10.0.0.1''" by (simp add: scan_env_web_def)
  show ?thesis using scan_reports_each_entry_once [OF a, of 3] a by simp
qed

end
